theory Spec2Isabelle
  imports Complex_Main "HOL-Library.AList"
begin

section \<open>Data model\<close>

text \<open>
  The two notebooks under \<open>samples/classification\<close> classify the pages of a document,
  compare the labels with a human-authored expected set and store the result.
  Python exceptions are values of \<open>error\<close>; a cell that raises returns \<open>Inl\<close>.
  A floating-point number is the real number it denotes; the numbers the numeric
  libraries compute are parameters of the model, so no statement depends on how they round.
\<close>

datatype error =
  ProviderError | ValueError | NameError | IndexError | NotFoundError | ZeroDivisionError
  | TypeError | OSError

text \<open>
  An entry of the \<open>classifications\<close> list of dicts. The dict keys are
  \<open>classification\<close>, \<open>description\<close>, \<open>keywords\<close> and, once the keywords have been
  embedded, \<open>embedding\<close>; the fields carry the prefix \<open>cat_\<close> because the result
  record below has a field \<open>classification\<close> of its own.
\<close>

record category_def =
  cat_classification :: string
  cat_description :: string
  cat_keywords :: "string list"

record category = category_def +
  cat_embedding :: "real list"

text \<open>
  \<open>modules.classification.Classification\<close>, as the notebooks construct it. An entry of
  \<open>all_similarities\<close> is the dict \<open>{"classification": name, "similarity": str(sim)}\<close>;
  the pair keeps the number itself instead of its decimal string.
\<close>

record Classification =
  page_number :: int
  classification :: string
  similarity :: real
  all_similarities :: "(string \<times> real) list"

section \<open>Library functions used by the similarity notebook\<close>

text \<open>
  \<open>np.array(rows)\<close>: a list of rows of unequal lengths is rejected with ValueError;
  the empty list gives the one-dimensional empty array, kept here as \<open>[]\<close>.
\<close>

definition np_array :: "real list list \<Rightarrow> error + real list list" where
  "np_array rows =
     (if list_all (\<lambda>r. length r = length (hd rows)) rows then Inr rows else Inl ValueError)"

definition dot :: "real list \<Rightarrow> real list \<Rightarrow> real" where
  "dot a b = sum_list (map2 (*) a b)"

definition row_norm :: "real list \<Rightarrow> real" where
  "row_norm a = sqrt (dot a a)"

text \<open>\<open>sklearn.preprocessing.normalize\<close> on one row: a zero norm is replaced by 1.\<close>

definition normalize_row :: "real list \<Rightarrow> real list" where
  "normalize_row a =
     (let n = row_norm a; s = (if n = 0 then 1 else n) in map (\<lambda>x. x / s) a)"

definition cosine :: "real list \<Rightarrow> real list \<Rightarrow> real" where
  "cosine x y = dot (normalize_row x) (normalize_row y)"

text \<open>
  \<open>sklearn\<close> computes in float64: what \<open>cosine_similarity\<close> returns is the rounded
  result of normalising and multiplying, a finite number that can differ from the exact
  cosine in the last bits. Such a difference decides a comparison with the threshold or
  between two categories, so the computed numbers are a parameter: \<open>K x Y j\<close> is the
  number the library returns for the row \<open>x\<close> against row \<open>j\<close> of the matrix \<open>Y\<close>.
  The statements about the classifier hold for every \<open>K\<close>; \<open>exact_kernel\<close> is the one
  of exact arithmetic.
\<close>

type_synonym kernel = "real list \<Rightarrow> real list list \<Rightarrow> nat \<Rightarrow> real"

definition exact_kernel :: kernel where
  "exact_kernel x Y j = cosine x (Y ! j)"

text \<open>
  \<open>cosine_similarity(page_vector, classification_matrix)[0]\<close> for the one-row matrix
  \<open>page_vector\<close>: both arguments must be two-dimensional with at least one row and one
  column and the same number of columns, otherwise ValueError; the result holds one
  computed similarity for each row of the second argument, in the order of the rows.
\<close>

definition cosine_similarity ::
  "kernel \<Rightarrow> real list \<Rightarrow> real list list \<Rightarrow> error + real list" where
  "cosine_similarity K x Y =
     (if x = [] \<or> Y = [] \<or> \<not> list_all (\<lambda>y. length y = length x) Y then Inl ValueError
      else Inr (map (K x Y) [0..<length Y]))"

text \<open>
  \<open>np.argmax\<close>: the index of the first occurrence of the maximum; ValueError on an
  empty sequence.
\<close>

fun argmax_ne :: "real \<Rightarrow> real list \<Rightarrow> nat" where
  "argmax_ne x [] = 0"
| "argmax_ne x (y # ys) =
     (let j = argmax_ne y ys in if (y # ys) ! j \<le> x then 0 else Suc j)"

definition argmax :: "real list \<Rightarrow> error + nat" where
  "argmax xs = (case xs of [] \<Rightarrow> Inl ValueError | x # ys \<Rightarrow> Inr (argmax_ne x ys))"

section \<open>The similarity classifier (document-intelligence-embeddings, cell 20)\<close>

text \<open>
  The names \<open>best_similarity\<close> and \<open>all_similarities\<close> are bound only in the
  \<open>else\<close> branch of the loop body and are read after the \<open>if\<close> statement, so their
  values are carried from one iteration to the next: \<open>None\<close> when neither is bound
  yet (reading them raises NameError), \<open>Some\<close> of both otherwise. The branch for an empty
  embedding assigns \<open>classification\<close> and \<open>similarity\<close>; \<open>similarity\<close> is never read.
\<close>

type_synonym carried = "(real \<times> (string \<times> real) list) option"

definition classify_step ::
  "kernel \<Rightarrow> real \<Rightarrow> category list \<Rightarrow> real list list \<Rightarrow> carried \<Rightarrow> nat \<Rightarrow> real list
     \<Rightarrow> error + (Classification \<times> carried)" where
  "classify_step K similarity_threshold classifications classification_matrix st idx page_emb =
     (if page_emb = [] then
        (case st of
           None \<Rightarrow> Inl NameError
         | Some (best_similarity, all_sims) \<Rightarrow>
             Inr (\<lparr>page_number = int idx, classification = ''Unclassified'',
                   similarity = best_similarity, all_similarities = all_sims\<rparr>, st))
      else
        (case cosine_similarity K page_emb classification_matrix of
           Inl e \<Rightarrow> Inl e
         | Inr similarities \<Rightarrow>
             (case argmax similarities of
                Inl e \<Rightarrow> Inl e
              | Inr best_match_idx \<Rightarrow>
                  (let best_similarity = similarities ! best_match_idx;
                       all_sims = map (\<lambda>(cls, sim). (cat_classification cls, sim))
                                      (zip classifications similarities)
                   in if similarity_threshold \<le> best_similarity then
                        (if best_match_idx < length classifications then
                           Inr (\<lparr>page_number = int idx,
                                 classification =
                                   cat_classification (classifications ! best_match_idx),
                                 similarity = best_similarity,
                                 all_similarities = all_sims\<rparr>,
                                Some (best_similarity, all_sims))
                         else Inl IndexError)
                      else
                        Inr (\<lparr>page_number = int idx, classification = ''Unclassified'',
                              similarity = best_similarity, all_similarities = all_sims\<rparr>,
                             Some (best_similarity, all_sims))))))"

fun classify_loop ::
  "kernel \<Rightarrow> real \<Rightarrow> category list \<Rightarrow> real list list \<Rightarrow> carried \<Rightarrow> nat
     \<Rightarrow> real list list \<Rightarrow> Classification list \<Rightarrow> error + Classification list" where
  "classify_loop K t cs M st idx [] document_classifications = Inr document_classifications"
| "classify_loop K t cs M st idx (page_emb # rest) document_classifications =
     (case classify_step K t cs M st idx page_emb of
        Inl e \<Rightarrow> Inl e
      | Inr (c, st') \<Rightarrow>
          classify_loop K t cs M st' (Suc idx) rest (document_classifications @ [c]))"

definition classify_pages ::
  "kernel \<Rightarrow> real \<Rightarrow> category list \<Rightarrow> real list list \<Rightarrow> error + Classification list" where
  "classify_pages K similarity_threshold classifications page_embeddings =
     (case np_array (map cat_embedding classifications) of
        Inl e \<Rightarrow> Inl e
      | Inr classification_matrix \<Rightarrow>
          classify_loop K similarity_threshold classifications classification_matrix
            None 0 page_embeddings [])"

section \<open>The evaluation engine (the accuracy cell of both notebooks)\<close>

text \<open>
  Modelled from the spec: \<open>modules/classification.py\<close>, which declares
  \<open>Classifications.get_classification\<close>, is not among the sources. The spec says that a
  ClassificationSet supports lookup by \<open>page_number\<close> and that the lookup fails with
  NotFoundError when the page number is absent.
\<close>

definition get_classification :: "Classification list \<Rightarrow> int \<Rightarrow> error + Classification" where
  "get_classification cs p =
     (case find (\<lambda>c. page_number c = p) cs of None \<Rightarrow> Inl NotFoundError | Some c \<Rightarrow> Inr c)"

text \<open>
  The \<open>accuracy\<close> dict has the page numbers as keys and, in the end, the string
  \<open>'overall'\<close>. A Python dict keeps insertion order and an assignment to a key that is
  present replaces its value in place, which is \<open>AList.update\<close>.
\<close>

datatype key = Page int | Overall

fun accuracy_loop ::
  "Classification list \<Rightarrow> Classification list \<Rightarrow> (key \<times> real) list
     \<Rightarrow> error + (key \<times> real) list" where
  "accuracy_loop expected [] accuracy = Inr accuracy"
| "accuracy_loop expected (c # rest) accuracy =
     (case get_classification expected (page_number c) of
        Inl e \<Rightarrow> Inl e
      | Inr ec \<Rightarrow>
          accuracy_loop expected rest
            (AList.update (Page (page_number c))
               (if classification ec = classification c then 1 else 0) accuracy))"

definition calculate_accuracy ::
  "Classification list \<Rightarrow> Classification list \<Rightarrow> error + (key \<times> real) list" where
  "calculate_accuracy expected document_classifications =
     (case accuracy_loop expected document_classifications [] of
        Inl e \<Rightarrow> Inl e
      | Inr accuracy \<Rightarrow>
          if length accuracy = 0 then Inl ZeroDivisionError
          else Inr (AList.update Overall
                      (sum_list (map snd accuracy) / real (length accuracy)) accuracy))"

text \<open>The 0/1 indicator the loop stores for one page, when the lookup succeeds.\<close>

definition page_indicator :: "Classification list \<Rightarrow> Classification \<Rightarrow> real option" where
  "page_indicator expected c =
     (case get_classification expected (page_number c) of
        Inl e \<Rightarrow> None
      | Inr ec \<Rightarrow> Some (if classification ec = classification c then 1 else 0))"

section \<open>The expected sets\<close>

definition expected_entry :: "int \<Rightarrow> string \<Rightarrow> Classification" where
  "expected_entry p l =
     \<lparr>page_number = p, classification = l, similarity = 1, all_similarities = []\<rparr>"

definition expected_embeddings :: "Classification list" where
  "expected_embeddings =
     [expected_entry 0 ''Insurance Policy'',
      expected_entry 1 ''Insurance Policy'',
      expected_entry 2 ''Insurance Policy'',
      expected_entry 3 ''Insurance Policy'',
      expected_entry 4 ''Insurance Policy'',
      expected_entry 5 ''Insurance Certificate'',
      expected_entry 6 ''Terms and Conditions'',
      expected_entry 7 ''Terms and Conditions'',
      expected_entry 8 ''Terms and Conditions'',
      expected_entry 9 ''Terms and Conditions'',
      expected_entry 10 ''Terms and Conditions'',
      expected_entry 11 ''Terms and Conditions'',
      expected_entry 12 ''Terms and Conditions'']"

definition expected_openai :: "Classification list" where
  "expected_openai =
     [expected_entry 1 ''Insurance Policy'',
      expected_entry 2 ''Insurance Policy'',
      expected_entry 3 ''Insurance Policy'',
      expected_entry 4 ''Insurance Policy'',
      expected_entry 5 ''Insurance Policy'',
      expected_entry 6 ''Insurance Certificate'',
      expected_entry 7 ''Terms and Conditions'',
      expected_entry 8 ''Terms and Conditions'',
      expected_entry 9 ''Terms and Conditions'',
      expected_entry 10 ''Terms and Conditions'',
      expected_entry 11 ''Terms and Conditions'',
      expected_entry 12 ''Terms and Conditions'',
      expected_entry 13 ''Terms and Conditions'']"

section \<open>The notebooks as runs\<close>

text \<open>
  A notebook is run from a fresh kernel, cell after cell; the first statement that raises
  ends the run. The file system is a map from paths to contents. The services
  (layout analysis, embeddings, page rasteriser, chat completion), the stopwatch total,
  the serialiser \<open>to_json\<close> of \<open>modules.document_processing_result\<close> and the code that
  renders the report are parameters; each of them can raise.
\<close>

record DataClassificationResult =
  result_classification :: "Classification list"
  result_accuracy :: "(key \<times> real) list"
  result_execution_time :: real

type_synonym files = "string \<rightharpoonup> string"

fun join_space :: "string list \<Rightarrow> string" where
  "join_space [] = []"
| "join_space [k] = k"
| "join_space (k # ks) = k @ '' '' @ join_space ks"

text \<open>Cell 18: one embedding call per category, on the space-joined keywords.\<close>

fun embed_classifications ::
  "(string \<Rightarrow> error + real list) \<Rightarrow> category_def list \<Rightarrow> error + category list" where
  "embed_classifications get_embedding [] = Inr []"
| "embed_classifications get_embedding (d # ds) =
     (case get_embedding (join_space (cat_keywords d)) of
        Inl e \<Rightarrow> Inl e
      | Inr v \<Rightarrow>
          (case embed_classifications get_embedding ds of
             Inl e \<Rightarrow> Inl e
           | Inr cs \<Rightarrow> Inr (category_def.extend d \<lparr>cat_embedding = v\<rparr> # cs)))"

text \<open>Cell 19: one embedding call per page text.\<close>

fun embed_pages ::
  "(string \<Rightarrow> error + real list) \<Rightarrow> string list \<Rightarrow> error + real list list" where
  "embed_pages get_embedding [] = Inr []"
| "embed_pages get_embedding (text # rest) =
     (case get_embedding text of
        Inl e \<Rightarrow> Inl e
      | Inr v \<Rightarrow>
          (case embed_pages get_embedding rest of
             Inl e \<Rightarrow> Inl e
           | Inr vs \<Rightarrow> Inr (v # vs)))"

text \<open>
  The statement that stores the result, the same in both notebooks:
  \<^verbatim>\<open>with open(path, "w") as f: f.write(classification_result.to_json(indent=4))\<close>.
  \<open>open\<close> runs first and creates the file or empties it; then \<open>to_json\<close> is evaluated;
  then the string is written. What the operating system does is given by \<open>file_io\<close>:
  \<open>open_error\<close> is the exception \<open>open\<close> raises, if any, and \<open>write_limit\<close> is \<open>None\<close>
  when the whole string reaches the file and \<open>Some n\<close> when the write raises after \<open>n\<close>
  characters.
\<close>

record file_io =
  open_error :: "error option"
  write_limit :: "nat option"

definition write_result ::
  "file_io \<Rightarrow> (DataClassificationResult \<Rightarrow> error + string) \<Rightarrow> DataClassificationResult
     \<Rightarrow> string \<Rightarrow> files \<Rightarrow> (error + unit) \<times> files" where
  "write_result io to_json classification_result path fs =
     (case open_error io of
        Some e \<Rightarrow> (Inl e, fs)
      | None \<Rightarrow>
          (case to_json classification_result of
             Inl e \<Rightarrow> (Inl e, fs(path \<mapsto> []))
           | Inr s \<Rightarrow>
               (case write_limit io of
                  Some n \<Rightarrow> (Inl OSError, fs(path \<mapsto> take n s))
                | None \<Rightarrow> (Inr (), fs(path \<mapsto> s)))))"

text \<open>
  The similarity notebook up to the accuracy cell (cells 16 to 21): layout analysis,
  embedding of the categories and of the pages, classification, evaluation.
\<close>

definition embeddings_pipeline ::
  "(error + string list) \<Rightarrow> (string \<Rightarrow> error + real list) \<Rightarrow> kernel \<Rightarrow> Classification list
     \<Rightarrow> category_def list \<Rightarrow> real \<Rightarrow> error + (Classification list \<times> (key \<times> real) list)" where
  "embeddings_pipeline analyze get_embedding K expected classifications similarity_threshold =
     (case analyze of
        Inl e \<Rightarrow> Inl e
      | Inr pages_content \<Rightarrow>
     (case embed_classifications get_embedding classifications of
        Inl e \<Rightarrow> Inl e
      | Inr embedded \<Rightarrow>
     (case embed_pages get_embedding pages_content of
        Inl e \<Rightarrow> Inl e
      | Inr page_embeddings \<Rightarrow>
     (case classify_pages K similarity_threshold embedded page_embeddings of
        Inl e \<Rightarrow> Inl e
      | Inr document_classifications \<Rightarrow>
     (case calculate_accuracy expected document_classifications of
        Inl e \<Rightarrow> Inl e
      | Inr accuracy \<Rightarrow> Inr (document_classifications, accuracy))))))"


text \<open>
  The vision notebook up to the confidence evaluation (cells 13 to 15 and the first
  statement of cell 16): the pages are rasterised, one request holding every page image is
  sent, the parsed answer is taken as \<open>document_classifications\<close> as it is, the accuracy
  is computed and the confidence is evaluated.
\<close>

definition openai_pipeline ::
  "(error + 'img list) \<Rightarrow> ('img list \<Rightarrow> error + Classification list)
     \<Rightarrow> (Classification list \<Rightarrow> error + 'conf) \<Rightarrow> Classification list
     \<Rightarrow> error + (Classification list \<times> (key \<times> real) list \<times> 'conf)" where
  "openai_pipeline convert_from_bytes parse evaluate_confidence expected =
     (case convert_from_bytes of
        Inl e \<Rightarrow> Inl e
      | Inr pages \<Rightarrow>
     (case parse pages of
        Inl e \<Rightarrow> Inl e
      | Inr document_classifications \<Rightarrow>
     (case calculate_accuracy expected document_classifications of
        Inl e \<Rightarrow> Inl e
      | Inr accuracy \<Rightarrow>
     (case evaluate_confidence document_classifications of
        Inl e \<Rightarrow> Inl e
      | Inr confidence \<Rightarrow> Inr (document_classifications, accuracy, confidence)))))"

text \<open>The rest of cell 16 builds the result, stores it and then renders the report.\<close>

definition run_openai_notebook ::
  "(error + 'img list) \<Rightarrow> ('img list \<Rightarrow> error + Classification list)
     \<Rightarrow> (Classification list \<Rightarrow> error + 'conf) \<Rightarrow> Classification list
     \<Rightarrow> real \<Rightarrow> file_io \<Rightarrow> (DataClassificationResult \<Rightarrow> error + string)
     \<Rightarrow> ('conf \<Rightarrow> DataClassificationResult \<Rightarrow> error + unit)
     \<Rightarrow> string \<Rightarrow> files \<Rightarrow> (error + DataClassificationResult) \<times> files" where
  "run_openai_notebook convert_from_bytes parse evaluate_confidence expected
     total_elapsed io to_json display path fs =
     (case openai_pipeline convert_from_bytes parse evaluate_confidence expected of
        Inl e \<Rightarrow> (Inl e, fs)
      | Inr (document_classifications, accuracy, confidence) \<Rightarrow>
          (let classification_result =
                 \<lparr>result_classification = document_classifications,
                  result_accuracy = accuracy,
                  result_execution_time = total_elapsed\<rparr>
           in (case write_result io to_json classification_result path fs of
                 (Inl e, fs') \<Rightarrow> (Inl e, fs')
               | (Inr u, fs') \<Rightarrow>
                   (case display confidence classification_result of
                      Inl e \<Rightarrow> (Inl e, fs')
                    | Inr u' \<Rightarrow> (Inr classification_result, fs')))))"

section \<open>The confidence report of the vision strategy\<close>

text \<open>
  Modelled from the spec: \<open>modules/openai_confidence.py\<close>, which declares
  \<open>evaluate_confidence\<close>, is not among the sources. The spec says: each token's
  log-probability is turned into a probability with \<open>exp\<close>, the tokens of one page's label
  are combined (the product is the recommended rule and the one taken here), a page without
  log-probability data has an undefined confidence (\<open>None\<close>, never zero), and \<open>overall\<close>
  is the mean of the defined per-page confidences. The spec does not say what \<open>overall\<close>
  is when no page has a defined confidence; it is undefined here.
\<close>

record ConfidenceReport =
  per_page :: "(int \<times> real option) list"
  overall :: "real option"

definition page_confidence :: "real list option \<Rightarrow> real option" where
  "page_confidence logprobs = map_option (\<lambda>lps. prod_list (map exp lps)) logprobs"

definition defined_values :: "(int \<times> real option) list \<Rightarrow> real list" where
  "defined_values pp = concat (map (\<lambda>(p, c). case c of None \<Rightarrow> [] | Some v \<Rightarrow> [v]) pp)"

definition mean_defined :: "(int \<times> real option) list \<Rightarrow> real option" where
  "mean_defined pp =
     (let vs = defined_values pp
      in if vs = [] then None else Some (sum_list vs / real (length vs)))"

definition confidence_report :: "(int \<times> real list option) list \<Rightarrow> ConfidenceReport" where
  "confidence_report pages =
     (let pp = map (\<lambda>(p, lps). (p, page_confidence lps)) pages
      in \<lparr>per_page = pp, overall = mean_defined pp\<rparr>)"

section \<open>Inputs for the concrete evaluations\<close>

definition demo_category :: "string \<Rightarrow> string list \<Rightarrow> real list \<Rightarrow> category" where
  "demo_category n ks v =
     \<lparr>cat_classification = n, cat_description = [], cat_keywords = ks, cat_embedding = v\<rparr>"

definition demo_categories :: "category list" where
  "demo_categories =
     [demo_category ''A'' [''x'', ''y''] [1, 0], demo_category ''B'' [''p'', ''q''] [0, 1]]"

definition demo_page :: "int \<Rightarrow> string \<Rightarrow> real \<Rightarrow> (string \<times> real) list \<Rightarrow> Classification" where
  "demo_page p l s a =
     \<lparr>page_number = p, classification = l, similarity = s, all_similarities = a\<rparr>"

text \<open>Three categories of which the second and the third have the same embedding.\<close>

definition tie_categories :: "category list" where
  "tie_categories =
     [demo_category ''A'' [''x'', ''y''] [0, 1], demo_category ''B'' [''p'', ''q''] [1, 0],
      demo_category ''C'' [''r'', ''s''] [1, 0]]"

text \<open>
  Two categories with parallel embeddings and a kernel with the values that
  double-precision normalising and multiplying gives for the page \<open>[1, 1]\<close> against them:
  \<open>0.9999999999999998\<close> for the row \<open>[1, 1]\<close> and \<open>1.0\<close> for the row \<open>[3, 3]\<close>,
  where the exact cosine is 1 for both.
\<close>

definition parallel_categories :: "category list" where
  "parallel_categories =
     [demo_category ''A'' [''x'', ''y''] [1, 1], demo_category ''B'' [''p'', ''q''] [3, 3]]"

definition rounded_kernel :: kernel where
  "rounded_kernel x Y j = (if Y ! j = [3, 3] then 1 else 1 - 1 / 2 ^ 52)"

text \<open>
  A parsed answer of the completion provider for a three-page document that names the
  pages 1 and 3 only, a confidence evaluation that succeeds, serialisers and report
  renderers, file operations that succeed or fail, and an empty file system.
\<close>

definition demo_parse :: "nat list \<Rightarrow> error + Classification list" where
  "demo_parse pages =
     Inr [expected_entry 1 ''Insurance Policy'', expected_entry 3 ''Insurance Policy'']"

definition demo_confidence :: "Classification list \<Rightarrow> error + unit" where
  "demo_confidence cs = Inr ()"

definition demo_to_json :: "DataClassificationResult \<Rightarrow> error + string" where
  "demo_to_json r = Inr ''{}''"



definition demo_report :: "unit \<Rightarrow> DataClassificationResult \<Rightarrow> error + unit" where
  "demo_report confidence r = Inr ()"

definition io_ok :: file_io where
  "io_ok = \<lparr>open_error = None, write_limit = None\<rparr>"


definition no_files :: files where
  "no_files = Map.empty"



definition demo_actual :: "Classification list" where
  "demo_actual =
     [demo_page 0 ''Insurance Policy'' (1 / 2) [], demo_page 3 ''Unclassified'' (3 / 10) []]"

section \<open>Properties of the library functions and of the classification loop\<close>

lemma argmax_ne_lt: "argmax_ne x xs < Suc (length xs)"
  by (induction x xs rule: argmax_ne.induct) (auto simp: Let_def)

lemma argmax_ne_max: "i < Suc (length xs) \<Longrightarrow> (x # xs) ! i \<le> (x # xs) ! argmax_ne x xs"
proof (induction x xs arbitrary: i rule: argmax_ne.induct)
  case (1 x)
  then show ?case by simp
next
  case (2 x y ys)
  show ?case
  proof (cases i)
    case 0
    then show ?thesis by (auto simp: Let_def)
  next
    case (Suc k)
    with 2 have "(y # ys) ! k \<le> (y # ys) ! argmax_ne y ys" by simp
    with Suc show ?thesis by (auto simp: Let_def)
  qed
qed

lemma argmax_ne_first: "i < argmax_ne x xs \<Longrightarrow> (x # xs) ! i < (x # xs) ! argmax_ne x xs"
proof (induction x xs arbitrary: i rule: argmax_ne.induct)
  case (1 x)
  then show ?case by simp
next
  case (2 x y ys)
  show ?case
  proof (cases i)
    case 0
    with 2 show ?thesis by (auto simp: Let_def split: if_splits)
  next
    case (Suc k)
    with 2 show ?thesis by (auto simp: Let_def split: if_splits)
  qed
qed

lemma argmax_Inr:
  assumes "argmax xs = Inr b"
  shows "b < length xs \<and> (\<forall>k < length xs. xs ! k \<le> xs ! b) \<and> (\<forall>k < b. xs ! k < xs ! b)"
proof -
  from assms obtain x ys where xs: "xs = x # ys" and b: "b = argmax_ne x ys"
    by (auto simp: argmax_def split: list.splits)
  show ?thesis
    unfolding xs b using argmax_ne_lt [of x ys] argmax_ne_max [of _ ys x] argmax_ne_first [of _ x ys]
    by simp
qed

lemma argmax_nonempty: "xs \<noteq> [] \<Longrightarrow> \<exists>b. argmax xs = Inr b"
  by (cases xs) (simp_all add: argmax_def)

lemma cosine_similarity_Inr:
  "cosine_similarity K x Y = Inr s \<Longrightarrow>
     s = map (K x Y) [0..<length Y] \<and> Y \<noteq> [] \<and> x \<noteq> [] \<and> (\<forall>y \<in> set Y. length y = length x)"
  by (auto simp: cosine_similarity_def list_all_iff split: if_splits)

lemma classify_step_page_number:
  "classify_step K t cs M s idx p = Inr (c, s') \<Longrightarrow> page_number c = int idx"
  unfolding classify_step_def Let_def
  by (simp split: if_splits option.splits sum.splits prod.splits) auto

lemma classify_step_usable:
  assumes "classify_step K t cs M s idx p = Inr (c, s')" and "p \<noteq> []"
  shows "\<exists>sims b. cosine_similarity K p M = Inr sims \<and> argmax sims = Inr b \<and>
           similarity c = sims ! b \<and>
           classification c = (if t \<le> sims ! b then cat_classification (cs ! b)
                               else ''Unclassified'') \<and>
           all_similarities c = map (\<lambda>(cls, sim). (cat_classification cls, sim)) (zip cs sims)"
proof -
  from assms obtain sims where sims: "cosine_similarity K p M = Inr sims"
    by (cases "cosine_similarity K p M") (simp_all add: classify_step_def)
  from assms sims obtain b where b: "argmax sims = Inr b"
    by (cases "argmax sims") (simp_all add: classify_step_def)
  from assms sims b show ?thesis
    by (cases "t \<le> sims ! b") (auto simp: classify_step_def Let_def split: if_splits)
qed

lemma classify_loop_inv:
  "classify_loop K t cs M st idx pages out = Inr res \<Longrightarrow>
     length res = length out + length pages \<and> take (length out) res = out \<and>
     (\<forall>i < length pages. \<exists>s s'. classify_step K t cs M s (idx + i) (pages ! i)
                                  = Inr (res ! (length out + i), s'))"
proof (induction pages arbitrary: st idx out)
  case Nil
  then show ?case by simp
next
  case (Cons p ps)
  from Cons.prems obtain c st' where
    step: "classify_step K t cs M st idx p = Inr (c, st')" and
    rest: "classify_loop K t cs M st' (Suc idx) ps (out @ [c]) = Inr res"
    by (auto split: sum.splits)
  from Cons.IH [OF rest] have
    len: "length res = length (out @ [c]) + length ps" and
    tk: "take (length (out @ [c])) res = out @ [c]" and
    all: "\<forall>i < length ps. \<exists>s s'. classify_step K t cs M s (Suc idx + i) (ps ! i)
                                  = Inr (res ! (length (out @ [c]) + i), s')"
    by blast+
  have tk': "take (length out) res = out"
    using tk by (metis length_append_singleton butlast_snoc butlast_take diff_Suc_1 le_add1 len)
  have c: "res ! length out = c"
    using tk by (metis length_append_singleton lessI nth_append_length nth_take)
  have "\<exists>s s'. classify_step K t cs M s (idx + i) ((p # ps) ! i)
                                  = Inr (res ! (length out + i), s')" if "i < length (p # ps)" for i
  proof (cases i)
    case 0
    with step c show ?thesis by auto
  next
    case (Suc k)
    with that all show ?thesis by auto
  qed
  with len tk' show ?case by auto
qed

lemma classify_pages_step:
  assumes "classify_pages K t cs page_embeddings = Inr res" and "i < length page_embeddings"
  shows "length res = length page_embeddings \<and>
         (\<exists>s s'. classify_step K t cs (map cat_embedding cs) s i (page_embeddings ! i)
                    = Inr (res ! i, s'))"
proof -
  from assms(1) have loop:
    "classify_loop K t cs (map cat_embedding cs) None 0 page_embeddings [] = Inr res"
    by (simp add: classify_pages_def np_array_def split: if_splits)
  from classify_loop_inv [OF loop] assms(2) show ?thesis by simp
qed

lemma argmax_upt_Inr:
  assumes "argmax (map f [0..<n]) = Inr b"
  shows "b < n \<and> (\<forall>k < n. f k \<le> f b) \<and> (\<forall>k < b. f k < f b)"
proof -
  note A = argmax_Inr [OF assms]
  from A have bl: "b < n" by simp
  have mx: "f k \<le> f b" if "k < n" for k
    using A that by auto
  have fs: "f k < f b" if "k < b" for k
    using A that by auto
  from bl mx fs show ?thesis by blast
qed

lemma zip_upt_names:
  "map (\<lambda>(cls, sim). (cat_classification cls, sim)) (zip cs (map f [0..<length cs])) =
     map (\<lambda>k. (cat_classification (cs ! k), f k)) [0..<length cs]"
  by (rule nth_equalityI) simp_all

text \<open>
  The record of a page with a non-empty embedding in a run that completes: the index
  chosen is the first one with the largest computed similarity.
\<close>

lemma classify_pages_usable:
  assumes run: "classify_pages K t cs page_embeddings = Inr res"
      and i: "i < length page_embeddings" and ne: "page_embeddings ! i \<noteq> []"
  shows "\<exists>b < length cs.
           (\<forall>k < length cs. K (page_embeddings ! i) (map cat_embedding cs) k
                              \<le> K (page_embeddings ! i) (map cat_embedding cs) b) \<and>
           (\<forall>k < b. K (page_embeddings ! i) (map cat_embedding cs) k
                      < K (page_embeddings ! i) (map cat_embedding cs) b) \<and>
           similarity (res ! i) = K (page_embeddings ! i) (map cat_embedding cs) b \<and>
           classification (res ! i) =
             (if t \<le> K (page_embeddings ! i) (map cat_embedding cs) b
              then cat_classification (cs ! b) else ''Unclassified'') \<and>
           all_similarities (res ! i) =
             map (\<lambda>k. (cat_classification (cs ! k),
                        K (page_embeddings ! i) (map cat_embedding cs) k)) [0..<length cs]"
proof -
  let ?p = "page_embeddings ! i"
  let ?M = "map cat_embedding cs"
  let ?sims = "map (K ?p ?M) [0..<length cs]"
  from classify_pages_step [OF run i] obtain s s' where
    step: "classify_step K t cs ?M s i ?p = Inr (res ! i, s')" by blast
  from classify_step_usable [OF step ne] obtain sims b where
    cs: "cosine_similarity K ?p ?M = Inr sims" and
    b: "argmax sims = Inr b" and
    sim: "similarity (res ! i) = sims ! b" and
    lab: "classification (res ! i) =
            (if t \<le> sims ! b then cat_classification (cs ! b) else ''Unclassified'')" and
    alls: "all_similarities (res ! i) =
            map (\<lambda>(cls, sim). (cat_classification cls, sim)) (zip cs sims)"
    by blast
  from cosine_similarity_Inr [OF cs] have sims: "sims = ?sims" by simp
  from argmax_upt_Inr [OF b [unfolded sims]] have
    bl: "b < length cs" and
    mx: "\<forall>k < length cs. K ?p ?M k \<le> K ?p ?M b" and
    fs: "\<forall>k < b. K ?p ?M k < K ?p ?M b"
    by blast+
  have nth: "sims ! b = K ?p ?M b" using bl by (simp add: sims)
  have z: "map (\<lambda>(cls, sim). (cat_classification cls, sim)) (zip cs sims) =
           map (\<lambda>k. (cat_classification (cs ! k), K ?p ?M k)) [0..<length cs]"
    unfolding sims by (rule zip_upt_names)
  from bl mx fs sim lab alls nth z show ?thesis by (intro exI [of _ b]) simp
qed

text \<open>
  When the run completes. With a page whose embedding is not empty, the run completes
  exactly if there is a category, the embeddings of all categories and of all pages with
  a non-empty embedding have one length, and the first page has a non-empty embedding
  (an empty one there reads names that are not bound yet).
\<close>

lemma classify_step_succeeds:
  assumes cs: "cs \<noteq> []" and p: "p \<noteq> []"
      and dims: "\<forall>c \<in> set cs. length (cat_embedding c) = length p"
  shows "\<exists>c bs al. classify_step K t cs (map cat_embedding cs) s idx p = Inr (c, Some (bs, al))"
proof -
  let ?M = "map cat_embedding cs"
  let ?sims = "map (K p ?M) [0..<length cs]"
  from cs p dims have sims: "cosine_similarity K p ?M = Inr ?sims"
    by (simp add: cosine_similarity_def list_all_iff)
  from cs have "?sims \<noteq> []" by simp
  from argmax_nonempty [OF this] obtain b where b: "argmax ?sims = Inr b" by blast
  from argmax_upt_Inr [OF b] have bl: "b < length cs" by blast
  from p sims b bl show ?thesis
    by (cases "t \<le> ?sims ! b") (simp_all add: classify_step_def Let_def)
qed

lemma classify_step_empty:
  "classify_step K t cs M (Some (bs, al)) idx [] =
     Inr (\<lparr>page_number = int idx, classification = ''Unclassified'', similarity = bs,
           all_similarities = al\<rparr>, Some (bs, al))"
  "classify_step K t cs M None idx [] = Inl NameError"
  by (simp_all add: classify_step_def)

lemma classify_loop_completes:
  assumes cs: "cs \<noteq> []"
      and dims: "\<forall>c \<in> set cs. length (cat_embedding c) = d"
  shows "\<forall>p \<in> set pages. p \<noteq> [] \<longrightarrow> length p = d \<Longrightarrow>
         st \<noteq> None \<or> pages = [] \<or> hd pages \<noteq> [] \<Longrightarrow>
           \<exists>res. classify_loop K t cs (map cat_embedding cs) st idx pages out = Inr res"
proof (induction pages arbitrary: st idx out)
  case Nil
  then show ?case by simp
next
  case (Cons p ps)
  from Cons.prems(1) have rest: "\<forall>p \<in> set ps. p \<noteq> [] \<longrightarrow> length p = d" by simp
  show ?case
  proof (cases "p = []")
    case True
    with Cons.prems(2) obtain bs al where st: "st = Some (bs, al)" by (cases st) auto
    from Cons.IH [OF rest, of "Some (bs, al)"] True st show ?thesis
      by (simp add: classify_step_empty)
  next
    case False
    with Cons.prems(1) have "length p = d" by simp
    with dims have "\<forall>c \<in> set cs. length (cat_embedding c) = length p" by simp
    from classify_step_succeeds [OF cs False this] obtain c bs al where
      step: "classify_step K t cs (map cat_embedding cs) st idx p = Inr (c, Some (bs, al))"
      by blast
    from Cons.IH [OF rest, of "Some (bs, al)"] step show ?thesis by simp
  qed
qed

lemma classify_pages_completes:
  assumes cs: "cs \<noteq> []"
      and dims: "\<forall>c \<in> set cs. length (cat_embedding c) = d"
      and pages: "\<forall>p \<in> set page_embeddings. p \<noteq> [] \<longrightarrow> length p = d"
      and first: "page_embeddings = [] \<or> hd page_embeddings \<noteq> []"
  shows "\<exists>res. classify_pages K t cs page_embeddings = Inr res"
proof -
  from cs dims have "np_array (map cat_embedding cs) = Inr (map cat_embedding cs)"
    by (cases cs) (simp_all add: np_array_def list_all_iff)
  moreover from first have "None \<noteq> (None :: carried) \<or> page_embeddings = []
                               \<or> hd page_embeddings \<noteq> []" by simp
  from classify_loop_completes [OF cs dims pages this]
  have "\<exists>res. classify_loop K t cs (map cat_embedding cs) None 0 page_embeddings [] = Inr res" .
  ultimately show ?thesis by (simp add: classify_pages_def)
qed

lemma classify_pages_completes_only_if:
  assumes run: "classify_pages K t cs page_embeddings = Inr res"
      and i: "i < length page_embeddings" and ne: "page_embeddings ! i \<noteq> []"
  shows "cs \<noteq> [] \<and>
         (\<forall>c \<in> set cs. length (cat_embedding c) = length (page_embeddings ! i)) \<and>
         (\<forall>p \<in> set page_embeddings. p \<noteq> [] \<longrightarrow> length p = length (page_embeddings ! i)) \<and>
         hd page_embeddings \<noteq> []"
proof -
  let ?M = "map cat_embedding cs"
  have dims_at: "cs \<noteq> [] \<and> (\<forall>c \<in> set cs. length (cat_embedding c) = length (page_embeddings ! j))"
    if j: "j < length page_embeddings" and nej: "page_embeddings ! j \<noteq> []" for j
  proof -
    from classify_pages_step [OF run j] obtain s s' where
      step: "classify_step K t cs ?M s j (page_embeddings ! j) = Inr (res ! j, s')" by blast
    from classify_step_usable [OF step nej] obtain sims where
      "cosine_similarity K (page_embeddings ! j) ?M = Inr sims" by blast
    from cosine_similarity_Inr [OF this] show ?thesis by auto
  qed
  from dims_at [OF i ne] have cs: "cs \<noteq> []"
    and dims: "\<forall>c \<in> set cs. length (cat_embedding c) = length (page_embeddings ! i)" by blast+
  have others: "length p = length (page_embeddings ! i)"
    if "p \<in> set page_embeddings" "p \<noteq> []" for p
  proof -
    from that(1) obtain j where j: "j < length page_embeddings" and p: "p = page_embeddings ! j"
      by (auto simp: in_set_conv_nth)
    from dims_at [OF j] that(2) p have
      "\<forall>c \<in> set cs. length (cat_embedding c) = length p" by simp
    with dims cs show ?thesis by (cases cs) auto
  qed
  have first: "hd page_embeddings \<noteq> []"
  proof
    assume e: "hd page_embeddings = []"
    from i obtain q qs where pq: "page_embeddings = q # qs" by (cases page_embeddings) auto
    with e have "q = []" by simp
    with pq run show False
      by (simp add: classify_pages_def classify_step_empty split: sum.splits)
  qed
  from cs dims others first show ?thesis by blast
qed

lemma sqrt_25: "sqrt 25 = 5"
  by (rule real_sqrt_unique) simp_all

lemma demo_cosine_similarity:
  "cosine_similarity exact_kernel [3, 4] [[1, 0], [0, 1]] = Inr [3 / 5, 4 / 5]"
  by (simp add: cosine_similarity_def exact_kernel_def cosine_def normalize_row_def
      row_norm_def dot_def sqrt_25)

lemma demo_argmax: "argmax [3 / 5, 4 / 5] = Inr 1"
  by (simp add: argmax_def)

lemma demo_run_usable_then_empty:
  "classify_pages exact_kernel (2 / 5) demo_categories [[3, 4], []] =
     Inr [demo_page 0 ''B'' (4 / 5) [(''A'', 3 / 5), (''B'', 4 / 5)],
          demo_page 1 ''Unclassified'' (4 / 5) [(''A'', 3 / 5), (''B'', 4 / 5)]]"
  by (simp add: classify_pages_def np_array_def demo_categories_def demo_category_def
      classify_step_def demo_cosine_similarity demo_argmax demo_page_def Let_def)

lemma demo_run_empty_first:
  "classify_pages exact_kernel (2 / 5) demo_categories [[]] = Inl NameError"
  by (simp add: classify_pages_def np_array_def demo_categories_def demo_category_def
      classify_step_def)

lemma demo_run_above_threshold:
  "classify_pages exact_kernel (2 / 5) demo_categories [[3, 4]] =
     Inr [demo_page 0 ''B'' (4 / 5) [(''A'', 3 / 5), (''B'', 4 / 5)]]"
  by (simp add: classify_pages_def np_array_def demo_categories_def demo_category_def
      classify_step_def demo_cosine_similarity demo_argmax demo_page_def Let_def)

lemma demo_run_below_threshold:
  "classify_pages exact_kernel (19 / 20) demo_categories [[3, 4]] =
     Inr [demo_page 0 ''Unclassified'' (4 / 5) [(''A'', 3 / 5), (''B'', 4 / 5)]]"
  by (simp add: classify_pages_def np_array_def demo_categories_def demo_category_def
      classify_step_def demo_cosine_similarity demo_argmax demo_page_def Let_def)

section \<open>Properties of the evaluation loop\<close>

lemma get_classification_found:
  "p \<in> page_number ` set expected \<Longrightarrow>
     \<exists>ec. get_classification expected p = Inr ec \<and> ec \<in> set expected \<and> page_number ec = p"
proof -
  assume "p \<in> page_number ` set expected"
  then have "find (\<lambda>c. page_number c = p) expected \<noteq> None"
    by (auto simp: find_None_iff)
  then obtain ec where f: "find (\<lambda>c. page_number c = p) expected = Some ec" by blast
  then have "ec \<in> set expected \<and> page_number ec = p"
    by (auto simp: find_Some_iff)
  with f show ?thesis by (simp add: get_classification_def)
qed

lemma get_classification_absent:
  "p \<notin> page_number ` set expected \<Longrightarrow> get_classification expected p = Inl NotFoundError"
proof -
  assume "p \<notin> page_number ` set expected"
  then have "find (\<lambda>c. page_number c = p) expected = None"
    by (auto simp: find_None_iff)
  then show ?thesis by (simp add: get_classification_def)
qed

lemma get_classification_error:
  "get_classification expected p = Inl e \<Longrightarrow> e = NotFoundError"
  by (auto simp: get_classification_def split: option.splits)

lemma accuracy_loop_error:
  "accuracy_loop expected actual acc = Inl e \<Longrightarrow> e = NotFoundError"
  by (induction actual arbitrary: acc)
     (auto split: sum.splits dest: get_classification_error)

lemma accuracy_loop_absent:
  "\<exists>c \<in> set actual. page_number c \<notin> page_number ` set expected \<Longrightarrow>
     accuracy_loop expected actual acc = Inl NotFoundError"
proof (induction actual arbitrary: acc)
  case Nil
  then show ?case by simp
next
  case (Cons c rest)
  show ?case
  proof (cases "page_number c \<in> page_number ` set expected")
    case True
    with Cons.prems have "\<exists>c \<in> set rest. page_number c \<notin> page_number ` set expected" by auto
    from Cons.IH [OF this] get_classification_found [OF True] show ?thesis
      by auto
  next
    case False
    then show ?thesis by (simp add: get_classification_absent)
  qed
qed

lemma update_fresh: "k \<notin> fst ` set al \<Longrightarrow> AList.update k v al = al @ [(k, v)]"
  by (induction al) auto

lemma set_update_subset: "set (AList.update k v al) \<subseteq> insert (k, v) (set al)"
  by (induction al) auto

lemma accuracy_loop_found:
  assumes "\<forall>c \<in> set actual. page_number c \<in> page_number ` set expected"
  shows "\<exists>acc'. accuracy_loop expected actual acc = Inr acc' \<and>
           (actual \<noteq> [] \<or> acc \<noteq> [] \<longrightarrow> acc' \<noteq> []) \<and>
           fst ` set acc' = fst ` set acc \<union> Page ` page_number ` set actual \<and>
           snd ` set acc' \<subseteq> snd ` set acc \<union>
              {v. \<exists>c \<in> set actual. page_indicator expected c = Some v} \<and>
           (distinct (map page_number actual) \<and>
            Page ` page_number ` set actual \<inter> fst ` set acc = {} \<longrightarrow>
              map (\<lambda>(k, v). (k, Some v)) acc' =
                map (\<lambda>(k, v). (k, Some v)) acc @
                map (\<lambda>c. (Page (page_number c), page_indicator expected c)) actual)"
  using assms
proof (induction actual arbitrary: acc)
  case Nil
  then show ?case by simp
next
  case (Cons c rest)
  from Cons.prems get_classification_found [of "page_number c" expected]
  obtain ec where ec: "get_classification expected (page_number c) = Inr ec" by auto
  define w :: real where "w = (if classification ec = classification c then 1 else 0)"
  let ?acc = "AList.update (Page (page_number c)) w acc"
  have ind: "page_indicator expected c = Some w" by (simp add: page_indicator_def ec w_def)
  from Cons.prems have "\<forall>c \<in> set rest. page_number c \<in> page_number ` set expected" by simp
  from Cons.IH [OF this, of ?acc] obtain acc' where
    loop: "accuracy_loop expected rest ?acc = Inr acc'" and
    ne: "acc' \<noteq> []" and
    keys: "fst ` set acc' = fst ` set ?acc \<union> Page ` page_number ` set rest" and
    vals: "snd ` set acc' \<subseteq> snd ` set ?acc \<union>
              {v. \<exists>c \<in> set rest. page_indicator expected c = Some v}" and
    dist: "distinct (map page_number rest) \<and>
            Page ` page_number ` set rest \<inter> fst ` set ?acc = {} \<longrightarrow>
              map (\<lambda>(k, v). (k, Some v)) acc' =
                map (\<lambda>(k, v). (k, Some v)) ?acc @
                map (\<lambda>c. (Page (page_number c), page_indicator expected c)) rest"
    by auto
  have run: "accuracy_loop expected (c # rest) acc = Inr acc'"
    using ec loop by (simp add: w_def)
  have k: "fst ` set acc' = fst ` set acc \<union> Page ` page_number ` set (c # rest)"
    using keys by (auto simp: dom_update)
  have "snd ` set ?acc \<subseteq> insert w (snd ` set acc)"
    using set_update_subset [of "Page (page_number c)" w acc] by force
  with vals ind have v: "snd ` set acc' \<subseteq> snd ` set acc \<union>
              {v. \<exists>c \<in> set (c # rest). page_indicator expected c = Some v}"
    by auto
  have d: "map (\<lambda>(k, v). (k, Some v)) acc' =
                map (\<lambda>(k, v). (k, Some v)) acc @
                map (\<lambda>c. (Page (page_number c), page_indicator expected c)) (c # rest)"
    if A: "distinct (map page_number (c # rest))"
       and B: "Page ` page_number ` set (c # rest) \<inter> fst ` set acc = {}"
  proof -
    from B have fresh: "Page (page_number c) \<notin> fst ` set acc" by auto
    then have upd: "?acc = acc @ [(Page (page_number c), w)]" by (rule update_fresh)
    from A B have "distinct (map page_number rest) \<and>
            Page ` page_number ` set rest \<inter> fst ` set ?acc = {}"
      by (auto simp: dom_update)
    with dist have "map (\<lambda>(k, v). (k, Some v)) acc' =
                map (\<lambda>(k, v). (k, Some v)) ?acc @
                map (\<lambda>c. (Page (page_number c), page_indicator expected c)) rest" by blast
    then show ?thesis unfolding upd by (simp add: ind)
  qed
  from run ne k v d show ?case by blast
qed

lemma sum_list_const:
  "\<forall>x \<in> set xs. snd x = (v::real) \<Longrightarrow> sum_list (map snd xs) = real (length xs) * v"
  by (induction xs) (auto simp: algebra_simps)

lemma calculate_accuracy_found:
  assumes ne: "actual \<noteq> []"
      and found: "\<forall>c \<in> set actual. page_number c \<in> page_number ` set expected"
  shows "\<exists>per_page. accuracy_loop expected actual [] = Inr per_page \<and>
           calculate_accuracy expected actual =
             Inr (per_page @ [(Overall, sum_list (map snd per_page) / real (length per_page))]) \<and>
           per_page \<noteq> [] \<and> Overall \<notin> fst ` set per_page"
proof -
  from accuracy_loop_found [OF found, of "[]"] ne obtain per_page where
    loop: "accuracy_loop expected actual [] = Inr per_page" and
    pne: "per_page \<noteq> []" and
    keys: "fst ` set per_page = fst ` set [] \<union> Page ` page_number ` set actual"
    by auto
  from keys have fresh: "Overall \<notin> fst ` set per_page" by auto
  from loop pne update_fresh [OF fresh] fresh show ?thesis
    by (simp add: calculate_accuracy_def)
qed

section \<open>Page numbers and the vision run\<close>

lemma zip_names:
  "map (\<lambda>(cls, sim). (cat_classification cls, sim)) (zip cs sims) =
     zip (map cat_classification cs) sims"
  by (simp add: zip_map1 case_prod_unfold)

lemma classify_step_names:
  assumes "map cat_classification cs = map cat_classification cs'"
  shows "classify_step K t cs M s idx p = classify_step K t cs' M s idx p"
proof -
  from assms have len: "length cs = length cs'" by (rule map_eq_imp_length_eq)
  have nth: "cat_classification (cs ! b) = cat_classification (cs' ! b)" if "b < length cs'" for b
    using that len assms by (metis nth_map)
  show ?thesis
    unfolding classify_step_def zip_names assms len
    by (auto simp: Let_def nth split: sum.splits option.splits)
qed

lemma classify_loop_names:
  assumes "map cat_classification cs = map cat_classification cs'"
  shows "classify_loop K t cs M s idx pages out = classify_loop K t cs' M s idx pages out"
  by (induction pages arbitrary: s idx out)
     (auto simp: classify_step_names [OF assms] split: sum.splits)

lemma classify_pages_names:
  assumes "map cat_classification cs = map cat_classification cs'"
      and "map cat_embedding cs = map cat_embedding cs'"
  shows "classify_pages K t cs page_embeddings = classify_pages K t cs' page_embeddings"
  unfolding classify_pages_def assms(2)
  by (auto simp: classify_loop_names [OF assms(1)] split: sum.splits)

lemma classify_pages_page_numbers:
  assumes "classify_pages K t cs page_embeddings = Inr res"
  shows "map page_number res = map int [0..<length page_embeddings]"
proof (rule nth_equalityI)
  show "length (map page_number res) = length (map int [0..<length page_embeddings])"
  proof (cases page_embeddings)
    case Nil
    with assms show ?thesis
      by (auto simp: classify_pages_def split: sum.splits)
  next
    case (Cons p ps)
    then have "0 < length page_embeddings" by simp
    from classify_pages_step [OF assms this] show ?thesis by simp
  qed
next
  fix i assume "i < length (map page_number res)"
  then have i: "i < length res" by simp
  have len: "length res = length page_embeddings"
  proof (cases page_embeddings)
    case Nil
    with assms show ?thesis
      by (auto simp: classify_pages_def split: sum.splits)
  next
    case (Cons p ps)
    then have "0 < length page_embeddings" by simp
    from classify_pages_step [OF assms this] show ?thesis by simp
  qed
  with i have i': "i < length page_embeddings" by simp
  from classify_pages_step [OF assms i'] obtain s s' where
    "classify_step K t cs (map cat_embedding cs) s i (page_embeddings ! i) = Inr (res ! i, s')"
    by blast
  from classify_step_page_number [OF this] i i' show
    "map page_number res ! i = map int [0..<length page_embeddings] ! i"
    by simp
qed

lemma calculate_accuracy_Inr_found:
  assumes "calculate_accuracy expected actual = Inr report"
  shows "page_number ` set actual \<subseteq> page_number ` set expected"
proof (rule ccontr)
  assume "\<not> page_number ` set actual \<subseteq> page_number ` set expected"
  then have "\<exists>c \<in> set actual. page_number c \<notin> page_number ` set expected" by blast
  from accuracy_loop_absent [OF this, of "[]"] assms show False
    by (simp add: calculate_accuracy_def)
qed

lemma tie_run:
  "classify_pages exact_kernel (2 / 5) tie_categories [[1, 0]] =
     Inr [demo_page 0 ''B'' 1 [(''A'', 0), (''B'', 1), (''C'', 1)]]"
  by (simp add: classify_pages_def np_array_def tie_categories_def demo_category_def
      classify_step_def cosine_similarity_def exact_kernel_def cosine_def normalize_row_def
      row_norm_def dot_def argmax_def demo_page_def Let_def)

lemma rounded_run:
  "classify_pages rounded_kernel 1 parallel_categories [[1, 1]] =
     Inr [demo_page 0 ''B'' 1 [(''A'', 1 - 1 / 2 ^ 52), (''B'', 1)]]"
  by (simp add: classify_pages_def np_array_def parallel_categories_def demo_category_def
      classify_step_def cosine_similarity_def rounded_kernel_def argmax_def demo_page_def
      Let_def)

section \<open>Properties of the runs\<close>




lemma embeddings_pipeline_Inr:
  assumes "embeddings_pipeline analyze get_embedding K expected classifications t
             = Inr (dc, acc)"
  shows "\<exists>pages_content embedded page_embeddings.
           analyze = Inr pages_content \<and>
           embed_classifications get_embedding classifications = Inr embedded \<and>
           embed_pages get_embedding pages_content = Inr page_embeddings \<and>
           classify_pages K t embedded page_embeddings = Inr dc \<and>
           calculate_accuracy expected dc = Inr acc"
  using assms unfolding embeddings_pipeline_def
  by (auto split: sum.splits)

lemma openai_pipeline_Inr:
  assumes "openai_pipeline conv parse conf expected = Inr (dc, acc, c)"
  shows "\<exists>pages. conv = Inr pages \<and> parse pages = Inr dc \<and>
           calculate_accuracy expected dc = Inr acc \<and> conf dc = Inr c"
  using assms unfolding openai_pipeline_def
  by (auto split: sum.splits)



lemma write_result_Inr:
  "write_result io to_json r path fs = (Inr u, fs') \<Longrightarrow>
     \<exists>s. to_json r = Inr s \<and> fs' = fs(path \<mapsto> s)"
  by (auto simp: write_result_def split: option.splits sum.splits)



lemma run_openai_notebook_error:
  "openai_pipeline conv parse conf expected = Inl e \<Longrightarrow>
     run_openai_notebook conv parse conf expected elapsed io to_json display path fs
       = (Inl e, fs)"
  by (simp add: run_openai_notebook_def)

lemma run_openai_notebook_final:
  "openai_pipeline conv parse conf expected = Inr (dc, acc, c) \<Longrightarrow>
     run_openai_notebook conv parse conf expected elapsed io to_json display path fs =
     (case write_result io to_json
             \<lparr>result_classification = dc, result_accuracy = acc,
              result_execution_time = elapsed\<rparr> path fs of
        (Inl e, fs') \<Rightarrow> (Inl e, fs')
      | (Inr u, fs') \<Rightarrow>
          (case display c \<lparr>result_classification = dc, result_accuracy = acc,
                           result_execution_time = elapsed\<rparr> of
             Inl e \<Rightarrow> (Inl e, fs')
           | Inr u' \<Rightarrow> (Inr \<lparr>result_classification = dc, result_accuracy = acc,
                                result_execution_time = elapsed\<rparr>, fs')))"
  by (simp add: run_openai_notebook_def Let_def)




lemma run_openai_notebook_Inr:
  assumes "run_openai_notebook conv parse conf expected elapsed io to_json display path fs
             = (Inr r, fs')"
  shows "\<exists>dc acc c s.
           openai_pipeline conv parse conf expected = Inr (dc, acc, c) \<and>
           r = \<lparr>result_classification = dc, result_accuracy = acc,
                result_execution_time = elapsed\<rparr> \<and>
           to_json r = Inr s \<and> fs' = fs(path \<mapsto> s)"
proof (cases "openai_pipeline conv parse conf expected")
  case (Inl e)
  with assms show ?thesis by (simp add: run_openai_notebook_error)
next
  case (Inr x)
  obtain dc acc c where x: "x = (dc, acc, c)" by (cases x)
  let ?r = "\<lparr>result_classification = dc, result_accuracy = acc,
             result_execution_time = elapsed\<rparr>"
  from assms have "r = ?r \<and> (\<exists>u. write_result io to_json ?r path fs = (Inr u, fs'))"
    unfolding run_openai_notebook_final [OF Inr [unfolded x]]
    by (auto split: prod.splits sum.splits)
  with write_result_Inr [of io to_json ?r path fs _ fs'] Inr x show ?thesis by auto
qed

lemma demo_openai_pipeline:
  "openai_pipeline (Inr [0, 1, 2]) demo_parse demo_confidence expected_openai =
     Inr ([expected_entry 1 ''Insurance Policy'', expected_entry 3 ''Insurance Policy''],
          [(Page 1, 1), (Page 3, 1), (Overall, 1)], ())"
  by (simp add: openai_pipeline_def demo_parse_def demo_confidence_def
      calculate_accuracy_def get_classification_def expected_openai_def expected_entry_def)

lemma demo_vision_run:
  "run_openai_notebook (Inr [0, 1, 2]) demo_parse demo_confidence expected_openai 0
     io_ok demo_to_json demo_report ''openai.json'' no_files =
   (Inr \<lparr>result_classification =
            [expected_entry 1 ''Insurance Policy'', expected_entry 3 ''Insurance Policy''],
          result_accuracy = [(Page 1, 1), (Page 3, 1), (Overall, 1)],
          result_execution_time = 0\<rparr>,
    no_files(''openai.json'' \<mapsto> ''{}''))"
  unfolding run_openai_notebook_final [OF demo_openai_pipeline]
  by (simp add: write_result_def
      io_ok_def demo_to_json_def demo_report_def)




section \<open>Properties of the confidence report\<close>

lemma prod_list_unit_interval:
  "\<forall>x \<in> set xs. 0 \<le> x \<and> x \<le> (1::real) \<Longrightarrow> 0 \<le> prod_list xs \<and> prod_list xs \<le> 1"
  by (induction xs) (auto simp: mult_le_one)

lemma page_confidence_range:
  assumes "page_confidence (Some lps) = Some v" and "\<forall>lp \<in> set lps. lp \<le> 0"
  shows "0 \<le> v \<and> v \<le> 1"
proof -
  from assms(1) have v: "v = prod_list (map exp lps)" by (simp add: page_confidence_def)
  from assms(2) have "\<forall>x \<in> set (map exp lps). 0 \<le> x \<and> x \<le> (1::real)" by auto
  from prod_list_unit_interval [OF this] v show ?thesis by simp
qed

lemma defined_values_append:
  "defined_values (xs @ ys) = defined_values xs @ defined_values ys"
  by (simp add: defined_values_def)

lemma defined_values_undefined: "defined_values ((p, None) # ys) = defined_values ys"
  by (simp add: defined_values_def)

lemma defined_values_mem:
  "v \<in> set (defined_values pp) \<longleftrightarrow> (\<exists>p. (p, Some v) \<in> set pp)"
  by (induction pp) (auto simp: defined_values_def split: option.splits)

lemma mean_unit_interval:
  assumes "vs \<noteq> []" and "\<forall>x \<in> set vs. 0 \<le> x \<and> x \<le> (1::real)"
  shows "0 \<le> sum_list vs / real (length vs) \<and> sum_list vs / real (length vs) \<le> 1"
proof -
  from assms(2) have "0 \<le> sum_list vs \<and> sum_list vs \<le> real (length vs)"
    by (induction vs) auto
  with assms(1) show ?thesis by (simp add: divide_le_eq)
qed

section \<open>Claims about the similarity classifier\<close>

lemma classify_pages_completes_iff:
  assumes i: "i < length page_embeddings" and ne: "page_embeddings ! i \<noteq> []"
  shows "(cs \<noteq> [] \<and>
          (\<forall>c \<in> set cs. length (cat_embedding c) = length (page_embeddings ! i)) \<and>
          (\<forall>p \<in> set page_embeddings. p \<noteq> [] \<longrightarrow> length p = length (page_embeddings ! i)) \<and>
          hd page_embeddings \<noteq> [])
         \<longleftrightarrow> (\<exists>res. classify_pages K t cs page_embeddings = Inr res)"
proof
  assume c: "cs \<noteq> [] \<and>
          (\<forall>c \<in> set cs. length (cat_embedding c) = length (page_embeddings ! i)) \<and>
          (\<forall>p \<in> set page_embeddings. p \<noteq> [] \<longrightarrow> length p = length (page_embeddings ! i)) \<and>
          hd page_embeddings \<noteq> []"
  then have "page_embeddings = [] \<or> hd page_embeddings \<noteq> []" by simp
  with c classify_pages_completes [of cs "length (page_embeddings ! i)" page_embeddings K t]
  show "\<exists>res. classify_pages K t cs page_embeddings = Inr res" by blast
next
  assume "\<exists>res. classify_pages K t cs page_embeddings = Inr res"
  then obtain res where "classify_pages K t cs page_embeddings = Inr res" by blast
  from classify_pages_completes_only_if [OF this i ne]
  show "cs \<noteq> [] \<and>
          (\<forall>c \<in> set cs. length (cat_embedding c) = length (page_embeddings ! i)) \<and>
          (\<forall>p \<in> set page_embeddings. p \<noteq> [] \<longrightarrow> length p = length (page_embeddings ! i)) \<and>
          hd page_embeddings \<noteq> []" .
qed

lemma demo_kernel_values:
  "exact_kernel [3, 4] (map cat_embedding demo_categories) 0 = 3 / 5"
  "exact_kernel [3, 4] (map cat_embedding demo_categories) (Suc 0) = 4 / 5"
  by (simp_all add: exact_kernel_def demo_categories_def demo_category_def cosine_def
      normalize_row_def row_norm_def dot_def sqrt_25)

lemma demo_conditions:
  "demo_categories \<noteq> [] \<and>
   (\<forall>c \<in> set demo_categories. length (cat_embedding c) = length ([[3, 4 :: real]] ! 0)) \<and>
   (\<forall>p \<in> set [[3, 4 :: real]]. p \<noteq> [] \<longrightarrow> length p = length ([[3, 4 :: real]] ! 0)) \<and>
   hd [[3, 4 :: real]] \<noteq> []"
  by (simp add: demo_categories_def demo_category_def)

lemma less_two_cases: "b < (2::nat) \<Longrightarrow> b = 0 \<or> b = Suc 0"
  by auto

text \<open>
  C1: a page whose embedding is empty should be recorded as \<open>Unclassified\<close> with score
  0.0 and an empty \<open>all_similarities\<close>. The loop body assigns \<open>similarity = 0.0\<close> in
  that branch, but the record is built from \<open>best_similarity\<close> and \<open>all_similarities\<close>,
  which that branch does not assign. Evaluated on a usable page followed by an empty one,
  the second record repeats the first page's score and score list; when the first page is
  the empty one the names are unbound and the run ends with NameError.
\<close>

theorem empty_embedding_reuses_previous_page:
  "classify_pages exact_kernel (2 / 5) demo_categories [[3, 4], []] =
     Inr [demo_page 0 ''B'' (4 / 5) [(''A'', 3 / 5), (''B'', 4 / 5)],
          demo_page 1 ''Unclassified'' (4 / 5) [(''A'', 3 / 5), (''B'', 4 / 5)]] \<and>
   classify_pages exact_kernel (2 / 5) demo_categories [[]] = Inl NameError"
  using demo_run_usable_then_empty demo_run_empty_first by simp

theorem empty_embedding_reuses_previous_page_witness:
  "\<exists>res. classify_pages exact_kernel (2 / 5) demo_categories [[3, 4], []] = Inr res \<and>
         page_number (res ! 1) = 1 \<and> classification (res ! 1) = ''Unclassified'' \<and>
         similarity (res ! 1) \<noteq> 0 \<and> all_similarities (res ! 1) \<noteq> []"
  using empty_embedding_reuses_previous_page by (simp add: demo_page_def)

text \<open>
  C2: take a page with a non-empty embedding. The run completes exactly if there is a
  category, all embeddings of categories and of pages with a non-empty embedding have the
  length of this one, and the first page's embedding is not empty. In the completed run
  the stored score of the page is the largest similarity computed for it, whether or not
  it reaches the threshold; the label is the name of a category with that similarity when
  it reaches the threshold and \<open>Unclassified\<close> when it does not. Unless that category is
  itself named \<open>Unclassified\<close>, the label is the category name exactly when the largest
  similarity reaches the threshold.
\<close>

theorem threshold_gating:
  assumes i: "i < length page_embeddings" and ne: "page_embeddings ! i \<noteq> []"
  shows
    "((cs \<noteq> [] \<and>
       (\<forall>c \<in> set cs. length (cat_embedding c) = length (page_embeddings ! i)) \<and>
       (\<forall>p \<in> set page_embeddings. p \<noteq> [] \<longrightarrow> length p = length (page_embeddings ! i)) \<and>
       hd page_embeddings \<noteq> [])
      \<longleftrightarrow> (\<exists>res. classify_pages K t cs page_embeddings = Inr res)) \<and>
     (\<forall>res. classify_pages K t cs page_embeddings = Inr res \<longrightarrow>
        (\<exists>b < length cs.
           (\<forall>k < length cs. K (page_embeddings ! i) (map cat_embedding cs) k
                              \<le> K (page_embeddings ! i) (map cat_embedding cs) b) \<and>
           similarity (res ! i) = K (page_embeddings ! i) (map cat_embedding cs) b \<and>
           (t \<le> K (page_embeddings ! i) (map cat_embedding cs) b \<longrightarrow>
              classification (res ! i) = cat_classification (cs ! b)) \<and>
           (K (page_embeddings ! i) (map cat_embedding cs) b < t \<longrightarrow>
              classification (res ! i) = ''Unclassified'') \<and>
           (cat_classification (cs ! b) \<noteq> ''Unclassified'' \<longrightarrow>
              (classification (res ! i) = cat_classification (cs ! b)
                 \<longleftrightarrow> t \<le> K (page_embeddings ! i) (map cat_embedding cs) b))))"
proof -
  have gate: "\<exists>b < length cs.
           (\<forall>k < length cs. K (page_embeddings ! i) (map cat_embedding cs) k
                              \<le> K (page_embeddings ! i) (map cat_embedding cs) b) \<and>
           similarity (res ! i) = K (page_embeddings ! i) (map cat_embedding cs) b \<and>
           (t \<le> K (page_embeddings ! i) (map cat_embedding cs) b \<longrightarrow>
              classification (res ! i) = cat_classification (cs ! b)) \<and>
           (K (page_embeddings ! i) (map cat_embedding cs) b < t \<longrightarrow>
              classification (res ! i) = ''Unclassified'') \<and>
           (cat_classification (cs ! b) \<noteq> ''Unclassified'' \<longrightarrow>
              (classification (res ! i) = cat_classification (cs ! b)
                 \<longleftrightarrow> t \<le> K (page_embeddings ! i) (map cat_embedding cs) b))"
    if run: "classify_pages K t cs page_embeddings = Inr res" for res
  proof -
    from classify_pages_usable [OF run i ne] obtain b where
      bl: "b < length cs" and
      mx: "\<forall>k < length cs. K (page_embeddings ! i) (map cat_embedding cs) k
                              \<le> K (page_embeddings ! i) (map cat_embedding cs) b" and
      sim: "similarity (res ! i) = K (page_embeddings ! i) (map cat_embedding cs) b" and
      lab: "classification (res ! i) =
             (if t \<le> K (page_embeddings ! i) (map cat_embedding cs) b
              then cat_classification (cs ! b) else ''Unclassified'')"
      by blast
    from bl mx sim lab show ?thesis by (intro exI [of _ b]) auto
  qed
  from classify_pages_completes_iff [OF i ne, of cs K t] gate show ?thesis by blast
qed

theorem threshold_gating_witness:
  "(\<exists>res. classify_pages exact_kernel (2 / 5) demo_categories [[3, 4]] = Inr res \<and>
          classification (res ! 0) = ''B'' \<and> similarity (res ! 0) = 4 / 5) \<and>
   (\<exists>res. classify_pages exact_kernel (19 / 20) demo_categories [[3, 4]] = Inr res \<and>
          classification (res ! 0) = ''Unclassified'' \<and> similarity (res ! 0) = 4 / 5)"
proof -
  have i: "0 < length [[3, 4 :: real]]" and ne: "[[3, 4 :: real]] ! 0 \<noteq> []" by simp_all
  have len: "length demo_categories = 2" by (simp add: demo_categories_def)
  have nameB: "cat_classification (demo_categories ! Suc 0) = ''B''"
    by (simp add: demo_categories_def demo_category_def)
  have part: "\<exists>res. classify_pages exact_kernel t demo_categories [[3, 4]] = Inr res \<and>
          classification (res ! 0) = (if t \<le> 4 / 5 then ''B'' else ''Unclassified'') \<and>
          similarity (res ! 0) = 4 / 5" for t
  proof -
    note T = threshold_gating [OF i ne, of demo_categories exact_kernel t]
    from T demo_conditions obtain res where
      run: "classify_pages exact_kernel t demo_categories [[3, 4]] = Inr res" by blast
    with T obtain b where bl: "b < length demo_categories" and
      mx: "\<forall>k < length demo_categories.
              exact_kernel ([[3, 4]] ! 0) (map cat_embedding demo_categories) k
                \<le> exact_kernel ([[3, 4]] ! 0) (map cat_embedding demo_categories) b" and
      sim: "similarity (res ! 0)
              = exact_kernel ([[3, 4]] ! 0) (map cat_embedding demo_categories) b" and
      up: "t \<le> exact_kernel ([[3, 4]] ! 0) (map cat_embedding demo_categories) b \<longrightarrow>
              classification (res ! 0) = cat_classification (demo_categories ! b)" and
      down: "exact_kernel ([[3, 4]] ! 0) (map cat_embedding demo_categories) b < t \<longrightarrow>
              classification (res ! 0) = ''Unclassified''"
      by blast
    from bl len have "b = 0 \<or> b = Suc 0" by (simp add: less_two_cases)
    moreover from mx len have
      "exact_kernel [3, 4] (map cat_embedding demo_categories) (Suc 0)
         \<le> exact_kernel [3, 4] (map cat_embedding demo_categories) b" by simp
    ultimately have b: "b = Suc 0" by (auto simp: demo_kernel_values)
    from sim up down show ?thesis
      unfolding b by (intro exI [of _ res]) (auto simp: run demo_kernel_values nameB)
  qed
  from part [of "2 / 5"] part [of "19 / 20"] show ?thesis by simp
qed

lemma map_nth_upt: "map (\<lambda>k. f (xs ! k)) [0..<length xs] = map f xs"
  by (rule nth_equalityI) simp_all

lemma exact_kernel_row:
  "map (exact_kernel x (map cat_embedding cs)) [0..<length cs] =
     map (\<lambda>c. cosine x (cat_embedding c)) cs"
  by (rule nth_equalityI) (simp_all add: exact_kernel_def)

text \<open>
  C6: take a page with a non-empty embedding. The run completes under the conditions
  given for C2, and in the completed run \<open>all_similarities\<close> of the page has one entry
  per category, in the order of the \<open>classifications\<close> list: the names are the category
  names in that order and the scores are the similarities computed for the page against
  the categories in that order (with exact arithmetic, the cosines of the page embedding
  with the category embeddings).
\<close>

theorem all_similarities_complete:
  assumes i: "i < length page_embeddings" and ne: "page_embeddings ! i \<noteq> []"
  shows
    "((cs \<noteq> [] \<and>
       (\<forall>c \<in> set cs. length (cat_embedding c) = length (page_embeddings ! i)) \<and>
       (\<forall>p \<in> set page_embeddings. p \<noteq> [] \<longrightarrow> length p = length (page_embeddings ! i)) \<and>
       hd page_embeddings \<noteq> [])
      \<longleftrightarrow> (\<exists>res. classify_pages K t cs page_embeddings = Inr res)) \<and>
     (\<forall>res. classify_pages K t cs page_embeddings = Inr res \<longrightarrow>
        length (all_similarities (res ! i)) = length cs \<and>
        map fst (all_similarities (res ! i)) = map cat_classification cs \<and>
        map snd (all_similarities (res ! i)) =
          map (K (page_embeddings ! i) (map cat_embedding cs)) [0..<length cs] \<and>
        (K = exact_kernel \<longrightarrow>
           map snd (all_similarities (res ! i)) =
             map (\<lambda>c. cosine (page_embeddings ! i) (cat_embedding c)) cs))"
proof -
  have entries: "length (all_similarities (res ! i)) = length cs \<and>
        map fst (all_similarities (res ! i)) = map cat_classification cs \<and>
        map snd (all_similarities (res ! i)) =
          map (K (page_embeddings ! i) (map cat_embedding cs)) [0..<length cs] \<and>
        (K = exact_kernel \<longrightarrow>
           map snd (all_similarities (res ! i)) =
             map (\<lambda>c. cosine (page_embeddings ! i) (cat_embedding c)) cs)"
    if run: "classify_pages K t cs page_embeddings = Inr res" for res
  proof -
    from classify_pages_usable [OF run i ne] have
      al: "all_similarities (res ! i) =
             map (\<lambda>k. (cat_classification (cs ! k),
                        K (page_embeddings ! i) (map cat_embedding cs) k)) [0..<length cs]"
      by blast
    have l: "length (all_similarities (res ! i)) = length cs" by (simp add: al)
    have f: "map fst (all_similarities (res ! i)) = map cat_classification cs"
      by (simp add: al comp_def map_nth_upt)
    have s: "map snd (all_similarities (res ! i)) =
          map (K (page_embeddings ! i) (map cat_embedding cs)) [0..<length cs]"
      by (simp add: al comp_def)
    from l f s exact_kernel_row [of "page_embeddings ! i" cs] show ?thesis by simp
  qed
  from classify_pages_completes_iff [OF i ne, of cs K t] entries show ?thesis by blast
qed

theorem all_similarities_complete_witness:
  "\<exists>res. classify_pages exact_kernel (2 / 5) demo_categories [[3, 4]] = Inr res \<and>
         map fst (all_similarities (res ! 0)) = [''A'', ''B''] \<and>
         map snd (all_similarities (res ! 0)) = [3 / 5, 4 / 5]"
proof -
  have i: "0 < length [[3, 4 :: real]]" and ne: "[[3, 4 :: real]] ! 0 \<noteq> []" by simp_all
  note T = all_similarities_complete [OF i ne, of demo_categories exact_kernel "2 / 5"]
  from T demo_conditions obtain res where
    run: "classify_pages exact_kernel (2 / 5) demo_categories [[3, 4]] = Inr res" by blast
  with T have
    f: "map fst (all_similarities (res ! 0)) = map cat_classification demo_categories" and
    s: "map snd (all_similarities (res ! 0)) =
          map (exact_kernel ([[3, 4]] ! 0) (map cat_embedding demo_categories))
              [0..<length demo_categories]"
    by blast+
  have names: "map cat_classification demo_categories = [''A'', ''B'']"
    by (simp add: demo_categories_def demo_category_def)
  have len: "[0..<length demo_categories] = [0, Suc 0]"
    by (simp add: demo_categories_def)
  from f s show ?thesis
    unfolding names len by (intro exI [of _ res]) (simp add: run demo_kernel_values)
qed

lemma tie_kernel_values:
  "exact_kernel [1, 0] (map cat_embedding tie_categories) 0 = 0"
  "exact_kernel [1, 0] (map cat_embedding tie_categories) (Suc 0) = 1"
  "exact_kernel [1, 0] (map cat_embedding tie_categories) (Suc (Suc 0)) = 1"
  by (simp_all add: exact_kernel_def tie_categories_def demo_category_def cosine_def
      normalize_row_def row_norm_def dot_def)

lemma tie_conditions:
  "tie_categories \<noteq> [] \<and>
   (\<forall>c \<in> set tie_categories. length (cat_embedding c) = length ([[1, 0 :: real]] ! 0)) \<and>
   (\<forall>p \<in> set [[1, 0 :: real]]. p \<noteq> [] \<longrightarrow> length p = length ([[1, 0 :: real]] ! 0)) \<and>
   hd [[1, 0 :: real]] \<noteq> []"
  by (simp add: tie_categories_def demo_category_def)

lemma rounded_kernel_values:
  "rounded_kernel [1, 1] (map cat_embedding parallel_categories) 0 = 1 - 1 / 2 ^ 52"
  "rounded_kernel [1, 1] (map cat_embedding parallel_categories) (Suc 0) = 1"
  by (simp_all add: rounded_kernel_def parallel_categories_def demo_category_def)

lemma parallel_conditions:
  "parallel_categories \<noteq> [] \<and>
   (\<forall>c \<in> set parallel_categories. length (cat_embedding c) = length ([[1, 1 :: real]] ! 0)) \<and>
   (\<forall>p \<in> set [[1, 1 :: real]]. p \<noteq> [] \<longrightarrow> length p = length ([[1, 1 :: real]] ! 0)) \<and>
   hd [[1, 1 :: real]] \<noteq> []"
  by (simp add: parallel_categories_def demo_category_def)

lemma less_three_cases: "b < (3::nat) \<Longrightarrow> b = 0 \<or> b = Suc 0 \<or> b = Suc (Suc 0)"
  by auto

text \<open>
  C10: take a page with a non-empty embedding. The run completes under the conditions
  given for C2. In the completed run the index chosen by \<open>np.argmax\<close> has the largest
  computed similarity and is the first one that has it: no category with the same
  similarity comes earlier in the list. The stored score is the similarity at that index
  and, when it reaches the threshold, the label is that category's name. The result is a
  function of the threshold, the computed similarities, the page embeddings and the
  names and embeddings of the categories: categories that agree in names and embeddings
  give the same result.
\<close>

theorem first_maximum_wins:
  assumes i: "i < length page_embeddings" and ne: "page_embeddings ! i \<noteq> []"
  shows
    "((cs \<noteq> [] \<and>
       (\<forall>c \<in> set cs. length (cat_embedding c) = length (page_embeddings ! i)) \<and>
       (\<forall>p \<in> set page_embeddings. p \<noteq> [] \<longrightarrow> length p = length (page_embeddings ! i)) \<and>
       hd page_embeddings \<noteq> [])
      \<longleftrightarrow> (\<exists>res. classify_pages K t cs page_embeddings = Inr res)) \<and>
     (\<forall>res. classify_pages K t cs page_embeddings = Inr res \<longrightarrow>
        (\<exists>b < length cs.
           (\<forall>k < length cs. K (page_embeddings ! i) (map cat_embedding cs) k
                              \<le> K (page_embeddings ! i) (map cat_embedding cs) b) \<and>
           (\<forall>k < length cs. K (page_embeddings ! i) (map cat_embedding cs) k
                              = K (page_embeddings ! i) (map cat_embedding cs) b
                              \<longrightarrow> b \<le> k) \<and>
           similarity (res ! i) = K (page_embeddings ! i) (map cat_embedding cs) b \<and>
           (t \<le> K (page_embeddings ! i) (map cat_embedding cs) b \<longrightarrow>
              classification (res ! i) = cat_classification (cs ! b))) \<and>
        (\<forall>cs'. map cat_classification cs' = map cat_classification cs \<and>
                map cat_embedding cs' = map cat_embedding cs \<longrightarrow>
                classify_pages K t cs' page_embeddings = Inr res))"
proof -
  have first: "\<exists>b < length cs.
           (\<forall>k < length cs. K (page_embeddings ! i) (map cat_embedding cs) k
                              \<le> K (page_embeddings ! i) (map cat_embedding cs) b) \<and>
           (\<forall>k < length cs. K (page_embeddings ! i) (map cat_embedding cs) k
                              = K (page_embeddings ! i) (map cat_embedding cs) b
                              \<longrightarrow> b \<le> k) \<and>
           similarity (res ! i) = K (page_embeddings ! i) (map cat_embedding cs) b \<and>
           (t \<le> K (page_embeddings ! i) (map cat_embedding cs) b \<longrightarrow>
              classification (res ! i) = cat_classification (cs ! b))"
    if run: "classify_pages K t cs page_embeddings = Inr res" for res
  proof -
    from classify_pages_usable [OF run i ne] obtain b where
      bl: "b < length cs" and
      mx: "\<forall>k < length cs. K (page_embeddings ! i) (map cat_embedding cs) k
                              \<le> K (page_embeddings ! i) (map cat_embedding cs) b" and
      fs: "\<forall>k < b. K (page_embeddings ! i) (map cat_embedding cs) k
                      < K (page_embeddings ! i) (map cat_embedding cs) b" and
      sim: "similarity (res ! i) = K (page_embeddings ! i) (map cat_embedding cs) b" and
      lab: "classification (res ! i) =
             (if t \<le> K (page_embeddings ! i) (map cat_embedding cs) b
              then cat_classification (cs ! b) else ''Unclassified'')"
      by blast
    have "b \<le> k"
      if "K (page_embeddings ! i) (map cat_embedding cs) k
            = K (page_embeddings ! i) (map cat_embedding cs) b" for k
    proof (rule ccontr)
      assume "\<not> b \<le> k"
      then have "k < b" by simp
      with fs that show False by auto
    qed
    with bl mx sim lab show ?thesis by (intro exI [of _ b]) auto
  qed
  have det: "classify_pages K t cs' page_embeddings = Inr res"
    if "classify_pages K t cs page_embeddings = Inr res"
       "map cat_classification cs' = map cat_classification cs \<and>
        map cat_embedding cs' = map cat_embedding cs" for res cs'
    using classify_pages_names [of cs' cs K t page_embeddings] that by simp
  from classify_pages_completes_iff [OF i ne, of cs K t] first det show ?thesis by blast
qed

theorem first_maximum_wins_witness:
  "(\<exists>res. classify_pages exact_kernel (2 / 5) tie_categories [[1, 0]] = Inr res \<and>
          classification (res ! 0) = ''B'' \<and> similarity (res ! 0) = 1) \<and>
   (\<exists>res. classify_pages rounded_kernel 1 parallel_categories [[1, 1]] = Inr res \<and>
          classification (res ! 0) = ''B'' \<and> similarity (res ! 0) = 1)"
proof -
  have tie: "\<exists>res. classify_pages exact_kernel (2 / 5) tie_categories [[1, 0]] = Inr res \<and>
          classification (res ! 0) = ''B'' \<and> similarity (res ! 0) = 1"
  proof -
    have i: "0 < length [[1, 0 :: real]]" and ne: "[[1, 0 :: real]] ! 0 \<noteq> []" by simp_all
    have len: "length tie_categories = 3" by (simp add: tie_categories_def)
    have nameB: "cat_classification (tie_categories ! Suc 0) = ''B''"
      by (simp add: tie_categories_def demo_category_def)
    note T = first_maximum_wins [OF i ne, of tie_categories exact_kernel "2 / 5"]
    from T [THEN conjunct1] tie_conditions obtain res where
      run: "classify_pages exact_kernel (2 / 5) tie_categories [[1, 0]] = Inr res" by blast
    from T [THEN conjunct2, rule_format, OF run, THEN conjunct1] obtain b where bl: "b < length tie_categories" and
      mx: "\<forall>k < length tie_categories.
              exact_kernel ([[1, 0]] ! 0) (map cat_embedding tie_categories) k
                \<le> exact_kernel ([[1, 0]] ! 0) (map cat_embedding tie_categories) b" and
      fst: "\<forall>k < length tie_categories.
              exact_kernel ([[1, 0]] ! 0) (map cat_embedding tie_categories) k
                = exact_kernel ([[1, 0]] ! 0) (map cat_embedding tie_categories) b
              \<longrightarrow> b \<le> k" and
      sim: "similarity (res ! 0)
              = exact_kernel ([[1, 0]] ! 0) (map cat_embedding tie_categories) b" and
      up: "2 / 5 \<le> exact_kernel ([[1, 0]] ! 0) (map cat_embedding tie_categories) b \<longrightarrow>
              classification (res ! 0) = cat_classification (tie_categories ! b)"
      by blast
    from bl len have cases: "b = 0 \<or> b = Suc 0 \<or> b = Suc (Suc 0)"
      by (simp add: less_three_cases)
    from mx len have m1:
      "exact_kernel [1, 0] (map cat_embedding tie_categories) (Suc 0)
         \<le> exact_kernel [1, 0] (map cat_embedding tie_categories) b" by simp
    from fst len have f1:
      "exact_kernel [1, 0] (map cat_embedding tie_categories) (Suc 0)
         = exact_kernel [1, 0] (map cat_embedding tie_categories) b \<longrightarrow> b \<le> Suc 0" by simp
    from cases m1 f1 have b: "b = Suc 0" by (auto simp: tie_kernel_values)
    from sim up show ?thesis
      unfolding b by (intro exI [of _ res]) (auto simp: run tie_kernel_values nameB)
  qed
  have rounded: "\<exists>res. classify_pages rounded_kernel 1 parallel_categories [[1, 1]] = Inr res \<and>
          classification (res ! 0) = ''B'' \<and> similarity (res ! 0) = 1"
  proof -
    have i: "0 < length [[1, 1 :: real]]" and ne: "[[1, 1 :: real]] ! 0 \<noteq> []" by simp_all
    have len: "length parallel_categories = 2" by (simp add: parallel_categories_def)
    have nameB: "cat_classification (parallel_categories ! Suc 0) = ''B''"
      by (simp add: parallel_categories_def demo_category_def)
    note T = first_maximum_wins [OF i ne, of parallel_categories rounded_kernel 1]
    from T [THEN conjunct1] parallel_conditions obtain res where
      run: "classify_pages rounded_kernel 1 parallel_categories [[1, 1]] = Inr res" by blast
    from T [THEN conjunct2, rule_format, OF run, THEN conjunct1] obtain b where bl: "b < length parallel_categories" and
      mx: "\<forall>k < length parallel_categories.
              rounded_kernel ([[1, 1]] ! 0) (map cat_embedding parallel_categories) k
                \<le> rounded_kernel ([[1, 1]] ! 0) (map cat_embedding parallel_categories) b" and
      sim: "similarity (res ! 0)
              = rounded_kernel ([[1, 1]] ! 0) (map cat_embedding parallel_categories) b" and
      up: "1 \<le> rounded_kernel ([[1, 1]] ! 0) (map cat_embedding parallel_categories) b \<longrightarrow>
              classification (res ! 0) = cat_classification (parallel_categories ! b)"
      by blast
    from bl len have cases: "b = 0 \<or> b = Suc 0" by (simp add: less_two_cases)
    from mx len have
      "rounded_kernel [1, 1] (map cat_embedding parallel_categories) (Suc 0)
         \<le> rounded_kernel [1, 1] (map cat_embedding parallel_categories) b" by simp
    with cases have b: "b = Suc 0" by (auto simp: rounded_kernel_values)
    from sim up show ?thesis
      unfolding b by (intro exI [of _ res]) (auto simp: run rounded_kernel_values nameB)
  qed
  from tie rounded show ?thesis by blast
qed

section \<open>Claims about the evaluation engine\<close>

lemma demo_found:
  "\<forall>c \<in> set demo_actual. page_number c \<in> page_number ` set expected_embeddings"
  by (simp add: demo_actual_def demo_page_def expected_embeddings_def expected_entry_def)

lemma demo_accuracy:
  "calculate_accuracy expected_embeddings demo_actual =
     Inr ([(Page 0, 1), (Page 3, 0)] @ [(Overall, 1 / 2)])"
  by (simp add: calculate_accuracy_def get_classification_def demo_actual_def demo_page_def
      expected_embeddings_def expected_entry_def)

text \<open>
  C3: when the actual set is not empty and every page number of it occurs in the expected
  set, the report is the per-page entries followed by the entry \<open>overall\<close>, whose value
  is the sum of the per-page 0/1 indicators divided by their number; the sum is taken
  before \<open>overall\<close> is stored, so it is not part of its own mean. With distinct page numbers
  the per-page entries are the indicators of the pages in order. If every label matches
  the expected one, \<open>overall\<close> is 1; if none does, it is 0.
\<close>

theorem accuracy_overall_is_mean:
  assumes ne: "actual \<noteq> []"
      and found: "\<forall>c \<in> set actual. page_number c \<in> page_number ` set expected"
  shows "\<exists>per_page.
           calculate_accuracy expected actual =
             Inr (per_page @ [(Overall, sum_list (map snd per_page) / real (length per_page))]) \<and>
           per_page \<noteq> [] \<and> Overall \<notin> fst ` set per_page \<and>
           snd ` set per_page \<subseteq> {0, 1} \<and>
           (distinct (map page_number actual) \<longrightarrow>
              map (\<lambda>(k, v). (k, Some v)) per_page =
                map (\<lambda>c. (Page (page_number c), page_indicator expected c)) actual) \<and>
           ((\<forall>c \<in> set actual. page_indicator expected c = Some 1) \<longrightarrow>
              sum_list (map snd per_page) / real (length per_page) = 1) \<and>
           ((\<forall>c \<in> set actual. page_indicator expected c = Some 0) \<longrightarrow>
              sum_list (map snd per_page) / real (length per_page) = 0)"
proof -
  from calculate_accuracy_found [OF ne found] obtain per_page where
    loop: "accuracy_loop expected actual [] = Inr per_page" and
    calc: "calculate_accuracy expected actual =
             Inr (per_page @ [(Overall, sum_list (map snd per_page) / real (length per_page))])" and
    pne: "per_page \<noteq> []" and fresh: "Overall \<notin> fst ` set per_page"
    by blast
  from accuracy_loop_found [OF found, of "[]"] loop have
    vals: "snd ` set per_page \<subseteq> {v. \<exists>c \<in> set actual. page_indicator expected c = Some v}" and
    dist: "distinct (map page_number actual) \<longrightarrow>
              map (\<lambda>(k, v). (k, Some v)) per_page =
                map (\<lambda>c. (Page (page_number c), page_indicator expected c)) actual"
    by auto
  have bin: "snd ` set per_page \<subseteq> {0, 1}"
  proof
    fix v assume "v \<in> snd ` set per_page"
    with vals obtain c where "page_indicator expected c = Some v" by blast
    then show "v \<in> {0, 1}"
      by (auto simp: page_indicator_def split: sum.splits if_splits)
  qed
  have one: "sum_list (map snd per_page) / real (length per_page) = 1"
    if "\<forall>c \<in> set actual. page_indicator expected c = Some 1"
  proof -
    from vals that have "\<forall>x \<in> set per_page. snd x = 1" by force
    from sum_list_const [OF this] pne show ?thesis by simp
  qed
  have zero: "sum_list (map snd per_page) / real (length per_page) = 0"
    if "\<forall>c \<in> set actual. page_indicator expected c = Some 0"
  proof -
    from vals that have "\<forall>x \<in> set per_page. snd x = 0" by force
    from sum_list_const [OF this] show ?thesis by simp
  qed
  from calc pne fresh bin dist one zero show ?thesis by blast
qed

theorem accuracy_overall_is_mean_witness:
  "\<exists>per_page. calculate_accuracy expected_embeddings demo_actual =
      Inr (per_page @ [(Overall, sum_list (map snd per_page) / real (length per_page))]) \<and>
      per_page = [(Page 0, 1), (Page 3, 0)] \<and>
      sum_list (map snd per_page) / real (length per_page) = 1 / 2"
proof -
  have ne: "demo_actual \<noteq> []" by (simp add: demo_actual_def)
  from accuracy_overall_is_mean [OF ne demo_found] obtain per_page where
    calc: "calculate_accuracy expected_embeddings demo_actual =
      Inr (per_page @ [(Overall, sum_list (map snd per_page) / real (length per_page))])"
    by blast
  with demo_accuracy have "per_page = [(Page 0, 1), (Page 3, 0)]" by simp
  with calc show ?thesis by simp
qed

text \<open>
  C4: a page of the actual set whose page number has no entry in the expected set makes
  the lookup fail with NotFoundError, and the evaluation ends with that error instead of
  a report; the page is not scored.
\<close>

theorem missing_expected_page_fails:
  assumes "c \<in> set actual" and "page_number c \<notin> page_number ` set expected"
  shows "get_classification expected (page_number c) = Inl NotFoundError \<and>
         calculate_accuracy expected actual = Inl NotFoundError"
proof -
  from assms have "\<exists>c \<in> set actual. page_number c \<notin> page_number ` set expected" by blast
  from accuracy_loop_absent [OF this, of "[]"] get_classification_absent [OF assms(2)]
  show ?thesis by (simp add: calculate_accuracy_def)
qed

theorem missing_expected_page_fails_witness:
  "calculate_accuracy expected_openai [demo_page 0 ''Insurance Policy'' (1 / 2) []]
     = Inl NotFoundError"
  using missing_expected_page_fails
    [of "demo_page 0 ''Insurance Policy'' (1 / 2) []"
        "[demo_page 0 ''Insurance Policy'' (1 / 2) []]" expected_openai]
  by (simp add: demo_page_def expected_openai_def expected_entry_def)

text \<open>
  C9: for an actual set with no pages the accuracy cell divides by the number of per-page
  entries, which is zero, and raises ZeroDivisionError. For a non-empty set the division
  is defined: the evaluation never ends with ZeroDivisionError, and returns a report when
  every page number is found.
\<close>

theorem empty_set_division_by_zero:
  "calculate_accuracy expected [] = Inl ZeroDivisionError \<and>
   (actual \<noteq> [] \<longrightarrow> calculate_accuracy expected actual \<noteq> Inl ZeroDivisionError) \<and>
   (actual \<noteq> [] \<and> (\<forall>c \<in> set actual. page_number c \<in> page_number ` set expected) \<longrightarrow>
      (\<exists>report. calculate_accuracy expected actual = Inr report))"
proof -
  have a: "calculate_accuracy expected [] = Inl ZeroDivisionError"
    by (simp add: calculate_accuracy_def)
  have c: "\<exists>report. calculate_accuracy expected actual = Inr report"
    if "actual \<noteq> []" "\<forall>c \<in> set actual. page_number c \<in> page_number ` set expected"
    using calculate_accuracy_found [OF that] by blast
  have b: "calculate_accuracy expected actual \<noteq> Inl ZeroDivisionError" if ne: "actual \<noteq> []"
  proof (cases "\<forall>c \<in> set actual. page_number c \<in> page_number ` set expected")
    case True
    from c [OF ne True] show ?thesis by auto
  next
    case False
    then have "\<exists>c \<in> set actual. page_number c \<notin> page_number ` set expected" by blast
    from accuracy_loop_absent [OF this, of "[]"] show ?thesis
      by (simp add: calculate_accuracy_def)
  qed
  from a b c show ?thesis by blast
qed

theorem empty_set_division_by_zero_witness:
  "calculate_accuracy expected_embeddings [] = Inl ZeroDivisionError \<and>
   calculate_accuracy expected_embeddings demo_actual \<noteq> Inl ZeroDivisionError"
  using empty_set_division_by_zero [of expected_embeddings demo_actual]
  by (simp add: demo_actual_def)

section \<open>Claims about page numbering and persistence\<close>

text \<open>
  C5, as stated: the similarity strategy numbers its pages from 0 in document order, the
  vision strategy numbers them from 1, and neither skips a page index. For the vision
  strategy this fails: the set is the completion provider's parsed answer, taken as it
  is. For a three-page document answered with the pages 1 and 3 only, the run completes,
  the evaluation accepts the set and the stored set has the page numbers 1 and 3.
\<close>

theorem vision_page_numbers_counterexample:
  "fst (run_openai_notebook (Inr [0, 1, 2]) demo_parse demo_confidence expected_openai 0
          io_ok demo_to_json demo_report ''openai.json'' no_files) =
     Inr \<lparr>result_classification =
            [expected_entry 1 ''Insurance Policy'', expected_entry 3 ''Insurance Policy''],
          result_accuracy = [(Page 1, 1), (Page 3, 1), (Overall, 1)],
          result_execution_time = 0\<rparr> \<and>
   map page_number
     [expected_entry 1 ''Insurance Policy'', expected_entry 3 ''Insurance Policy''] = [1, 3]"
  using demo_vision_run by (simp add: expected_entry_def)

text \<open>
  C5, amended: a set produced by the similarity strategy has one entry per page and the
  entry at position i has page number i. The expected set of the similarity notebook is
  numbered 0 to 12 and the one of the vision notebook 1 to 13. A set produced by the vision
  strategy is the parsed answer of the completion provider, unchanged; a completed run
  only guarantees that each of its page numbers occurs in the expected set.
\<close>

theorem page_numbering:
  "(classify_pages K t cs page_embeddings = Inr res \<longrightarrow>
      length res = length page_embeddings \<and>
      map page_number res = map int [0..<length page_embeddings]) \<and>
   map page_number expected_embeddings = [0, 1, 2, 3, 4, 5, 6, 7, 8, 9, 10, 11, 12] \<and>
   map page_number expected_openai = [1, 2, 3, 4, 5, 6, 7, 8, 9, 10, 11, 12, 13] \<and>
   (run_openai_notebook conv parse conf expected elapsed io to_json display path fs
      = (Inr r, fs') \<longrightarrow>
      (\<exists>pages. conv = Inr pages \<and> parse pages = Inr (result_classification r)) \<and>
      page_number ` set (result_classification r) \<subseteq> page_number ` set expected)"
proof -
  have a: "length res = length page_embeddings \<and>
           map page_number res = map int [0..<length page_embeddings]"
    if run: "classify_pages K t cs page_embeddings = Inr res"
  proof -
    from classify_pages_page_numbers [OF run] have
      m: "map page_number res = map int [0..<length page_embeddings]" .
    from arg_cong [OF m, of length] have "length res = length page_embeddings" by simp
    with m show ?thesis by simp
  qed
  have b: "map page_number expected_embeddings = [0, 1, 2, 3, 4, 5, 6, 7, 8, 9, 10, 11, 12]"
    by (simp add: expected_embeddings_def expected_entry_def)
  have c: "map page_number expected_openai = [1, 2, 3, 4, 5, 6, 7, 8, 9, 10, 11, 12, 13]"
    by (simp add: expected_openai_def expected_entry_def)
  have d: "(\<exists>pages. conv = Inr pages \<and> parse pages = Inr (result_classification r)) \<and>
           page_number ` set (result_classification r) \<subseteq> page_number ` set expected"
    if run: "run_openai_notebook conv parse conf expected elapsed io to_json display path fs
               = (Inr r, fs')"
  proof -
    from run_openai_notebook_Inr [OF run] obtain dc acc cf where
      pipe: "openai_pipeline conv parse conf expected = Inr (dc, acc, cf)" and
      r: "r = \<lparr>result_classification = dc, result_accuracy = acc,
                result_execution_time = elapsed\<rparr>"
      by blast
    from openai_pipeline_Inr [OF pipe] obtain pages where
      "conv = Inr pages" "parse pages = Inr dc" "calculate_accuracy expected dc = Inr acc"
      by blast
    with calculate_accuracy_Inr_found [of expected dc acc] r
    show ?thesis by simp
  qed
  from a b c d show ?thesis by blast
qed

theorem page_numbering_witness:
  "classify_pages exact_kernel (2 / 5) demo_categories [[3, 4], []] =
     Inr [demo_page 0 ''B'' (4 / 5) [(''A'', 3 / 5), (''B'', 4 / 5)],
          demo_page 1 ''Unclassified'' (4 / 5) [(''A'', 3 / 5), (''B'', 4 / 5)]] \<and>
   map page_number
     [demo_page 0 ''B'' (4 / 5) [(''A'', 3 / 5), (''B'', 4 / 5)],
      demo_page 1 ''Unclassified'' (4 / 5) [(''A'', 3 / 5), (''B'', 4 / 5)]] = [0, 1] \<and>
   page_number `
     set [expected_entry 1 ''Insurance Policy'', expected_entry 3 ''Insurance Policy'']
     \<subseteq> page_number ` set expected_openai"
  using page_numbering
    [of exact_kernel "2 / 5" demo_categories "[[3, 4], []]"
        "[demo_page 0 ''B'' (4 / 5) [(''A'', 3 / 5), (''B'', 4 / 5)],
          demo_page 1 ''Unclassified'' (4 / 5) [(''A'', 3 / 5), (''B'', 4 / 5)]]"
        "Inr [0, 1, 2]" demo_parse demo_confidence expected_openai 0
        io_ok demo_to_json demo_report "''openai.json''" no_files
        "\<lparr>result_classification =
            [expected_entry 1 ''Insurance Policy'', expected_entry 3 ''Insurance Policy''],
          result_accuracy = [(Page 1, 1), (Page 3, 1), (Overall, 1)],
          result_execution_time = 0\<rparr>"
        "no_files(''openai.json'' \<mapsto> ''{}'')"]
    demo_run_usable_then_empty demo_vision_run
  by (simp add: upt_rec)




section \<open>Claims about the confidence report\<close>

text \<open>
  C7: in the confidence report a page without log-probability data keeps an undefined
  confidence (it is not turned into zero); \<open>overall\<close> is the mean of the defined
  per-page confidences only, so inserting a page with an undefined confidence anywhere
  leaves \<open>overall\<close> unchanged; and when every log-probability is at most 0, each defined
  per-page confidence and \<open>overall\<close> lie between 0 and 1.
\<close>

theorem confidence_overall_ignores_undefined:
  "(\<forall>p. (p, None) \<in> set pages \<longrightarrow> (p, None) \<in> set (per_page (confidence_report pages))) \<and>
   overall (confidence_report pages) =
     (if defined_values (per_page (confidence_report pages)) = [] then None
      else Some (sum_list (defined_values (per_page (confidence_report pages)))
                 / real (length (defined_values (per_page (confidence_report pages)))))) \<and>
   overall (confidence_report (xs @ (q, None) # ys)) = overall (confidence_report (xs @ ys)) \<and>
   ((\<forall>p lps lp. (p, Some lps) \<in> set pages \<and> lp \<in> set lps \<longrightarrow> lp \<le> 0) \<longrightarrow>
      (\<forall>p v. (p, Some v) \<in> set (per_page (confidence_report pages)) \<longrightarrow> 0 \<le> v \<and> v \<le> 1) \<and>
      (\<forall>m. overall (confidence_report pages) = Some m \<longrightarrow> 0 \<le> m \<and> m \<le> 1))"
proof -
  have a: "(p, None) \<in> set (per_page (confidence_report pages))" if "(p, None) \<in> set pages" for p
  proof -
    from that have "(\<lambda>(p, lps). (p, page_confidence lps)) (p, None)
                      \<in> (\<lambda>(p, lps). (p, page_confidence lps)) ` set pages"
      by (rule imageI)
    then show ?thesis by (simp add: confidence_report_def page_confidence_def Let_def)
  qed
  have b: "overall (confidence_report pages) =
     (if defined_values (per_page (confidence_report pages)) = [] then None
      else Some (sum_list (defined_values (per_page (confidence_report pages)))
                 / real (length (defined_values (per_page (confidence_report pages))))))"
    by (simp add: confidence_report_def mean_defined_def Let_def)
  have c: "overall (confidence_report (xs @ (q, None) # ys))
             = overall (confidence_report (xs @ ys))"
    by (simp add: confidence_report_def mean_defined_def Let_def defined_values_append
        defined_values_undefined page_confidence_def)
  have d: "(\<forall>p v. (p, Some v) \<in> set (per_page (confidence_report pages)) \<longrightarrow> 0 \<le> v \<and> v \<le> 1) \<and>
      (\<forall>m. overall (confidence_report pages) = Some m \<longrightarrow> 0 \<le> m \<and> m \<le> 1)"
    if neg: "\<forall>p lps lp. (p, Some lps) \<in> set pages \<and> lp \<in> set lps \<longrightarrow> lp \<le> 0"
  proof -
    have r: "0 \<le> v \<and> v \<le> 1" if "(p, Some v) \<in> set (per_page (confidence_report pages))" for p v
    proof -
      from that obtain l where l: "(p, l) \<in> set pages" and pc: "page_confidence l = Some v"
        by (auto simp: confidence_report_def Let_def)
      from pc obtain lps where lps: "l = Some lps" by (cases l) (simp_all add: page_confidence_def)
      from neg l lps have "\<forall>lp \<in> set lps. lp \<le> 0" by blast
      from page_confidence_range [OF pc [unfolded lps] this] show ?thesis .
    qed
    have o: "0 \<le> m \<and> m \<le> 1" if "overall (confidence_report pages) = Some m" for m
    proof -
      let ?vs = "defined_values (per_page (confidence_report pages))"
      from that b have ne: "?vs \<noteq> []" and m: "m = sum_list ?vs / real (length ?vs)"
        by (auto split: if_splits)
      from r have "\<forall>x \<in> set ?vs. 0 \<le> x \<and> x \<le> 1" by (auto simp: defined_values_mem)
      from mean_unit_interval [OF ne this] m show ?thesis by simp
    qed
    from r o show ?thesis by blast
  qed
  from a b c d show ?thesis by blast
qed

theorem confidence_overall_ignores_undefined_witness:
  "confidence_report [(1, Some [0]), (2, None)]
     = \<lparr>per_page = [(1, Some 1), (2, None)], overall = Some 1\<rparr> \<and>
   overall (confidence_report ([(1, Some [0])] @ (2, None) # []))
     = overall (confidence_report ([(1, Some [0])] @ [])) \<and>
   (2, None) \<in> set (per_page (confidence_report [(1, Some [0]), (2, None)]))"
  using confidence_overall_ignores_undefined [of "[(1, Some [0]), (2, None)]" "[(1, Some [0])]" 2 "[]"]
  by (simp add: confidence_report_def page_confidence_def mean_defined_def defined_values_def)

end
